theory Spec2Isabelle
  imports Main "HOL-Library.Sublist"
begin

section \<open>String primitives of the language runtime\<close>

text \<open>
  Strings are lists of characters, a character being a code unit below 256; offsets
  and lengths are integers, as the source computes with numbers that may be \<open>-1\<close>.
  On these code units \<open>String.prototype.toLowerCase\<close> works character by character:
  it adds 32 to the letters \<open>A\<close> to \<open>Z\<close> and to the letters from \<open>0xC0\<close> to \<open>0xDE\<close>
  other than the multiplication sign \<open>0xD7\<close>, and keeps every other character.
\<close>

definition upperLetters :: string where
  "upperLetters =
     ''ABCDEFGHIJKLMNOPQRSTUVWXYZ''
     @ [CHR 0xC0, CHR 0xC1, CHR 0xC2, CHR 0xC3, CHR 0xC4, CHR 0xC5, CHR 0xC6, CHR 0xC7,
        CHR 0xC8, CHR 0xC9, CHR 0xCA, CHR 0xCB, CHR 0xCC, CHR 0xCD, CHR 0xCE, CHR 0xCF,
        CHR 0xD0, CHR 0xD1, CHR 0xD2, CHR 0xD3, CHR 0xD4, CHR 0xD5, CHR 0xD6,
        CHR 0xD8, CHR 0xD9, CHR 0xDA, CHR 0xDB, CHR 0xDC, CHR 0xDD, CHR 0xDE]"

definition lowerLetters :: string where
  "lowerLetters =
     ''abcdefghijklmnopqrstuvwxyz''
     @ [CHR 0xE0, CHR 0xE1, CHR 0xE2, CHR 0xE3, CHR 0xE4, CHR 0xE5, CHR 0xE6, CHR 0xE7,
        CHR 0xE8, CHR 0xE9, CHR 0xEA, CHR 0xEB, CHR 0xEC, CHR 0xED, CHR 0xEE, CHR 0xEF,
        CHR 0xF0, CHR 0xF1, CHR 0xF2, CHR 0xF3, CHR 0xF4, CHR 0xF5, CHR 0xF6,
        CHR 0xF8, CHR 0xF9, CHR 0xFA, CHR 0xFB, CHR 0xFC, CHR 0xFD, CHR 0xFE]"

definition lowerChar :: "char \<Rightarrow> char" where
  "lowerChar c = (case map_of (zip upperLetters lowerLetters) c of Some l \<Rightarrow> l | None \<Rightarrow> c)"

definition toLowerCase :: "string \<Rightarrow> string" where
  "toLowerCase s = map lowerChar s"

text \<open>
  \<open>firstOccurrence needle xs\<close> is the least \<open>k\<close> at which \<open>needle\<close> starts in \<open>xs\<close>.
  \<open>indexOf text needle position\<close> is \<open>String.prototype.indexOf\<close>: the position is
  clamped to \<open>[0, length text]\<close>, the result is the first occurrence at or after it, or
  \<open>-1\<close>.
\<close>

primrec firstOccurrence :: "string \<Rightarrow> string \<Rightarrow> nat option" where
  "firstOccurrence needle [] = (if needle = [] then Some 0 else None)"
| "firstOccurrence needle (c # cs) =
     (if prefix needle (c # cs) then Some 0
      else map_option Suc (firstOccurrence needle cs))"

definition indexOf :: "string \<Rightarrow> string \<Rightarrow> int \<Rightarrow> int" where
  "indexOf text needle position =
     (let start = nat (min (max position 0) (int (length text)))
      in case firstOccurrence needle (drop start text) of
           None \<Rightarrow> - 1
         | Some k \<Rightarrow> int (start + k))"

text \<open>The function \<open>endsWith\<close> at the end of the source file.\<close>

definition endsWith :: "string \<Rightarrow> string \<Rightarrow> bool" where
  "endsWith haystack needle =
     (let diff = int (length haystack) - int (length needle)
      in if diff > 0 then indexOf haystack needle diff = diff
         else if diff = 0 then haystack = needle
         else False)"

section \<open>Data model\<close>

text \<open>
  A \<open>Uri\<close> as the host parses it.  Only \<open>scheme\<close>, \<open>authority\<close> and \<open>path\<close> are read by
  the linter; \<open>query\<close> and \<open>fragment\<close> are carried along by \<open>uri.with\<close>.
\<close>

record Uri =
  scheme :: string
  authority :: string
  path :: string
  query :: string
  fragment :: string

datatype Context = ICON | BADGE | MARKDOWN

record PackageJsonInfo =
  isExtension :: bool
  hasHttpsRepository :: bool

text \<open>
  The four messages of the source.  The specification calls them InsecureScheme
  (\<open>httpsRequired\<close>), SvgDisallowed (\<open>svgsNotValid\<close>), DataUrlForbidden
  (\<open>dataUrlsNotValid\<close>) and RelativeRequiresSecureRepo
  (\<open>relativeUrlRequiresHttpsRepository\<close>).
\<close>

datatype Message =
    httpsRequired
  | svgsNotValid
  | dataUrlsNotValid
  | relativeUrlRequiresHttpsRepository

text \<open>
  A diagnostic carries the two offsets handed to \<open>document.positionAt\<close> for its range,
  and its message.  The severity is \<open>Warning\<close> in every diagnostic the source builds and
  is left out.
\<close>

record Diagnostic =
  rangeStart :: int
  rangeEnd :: int
  message :: Message

text \<open>The node of a parsed JSON document, with the fields the linter reads.\<close>

datatype NodeType = NObject | NArray | NProperty | NString | NNumber | NBoolean | NNull

datatype JsonNode =
  JsonNode (node_type: NodeType) (node_offset: int) (node_length: int)
           (node_value: string) (node_children: "JsonNode list")

text \<open>
  A Markdown token: its type, the optional line range \<open>map\<close>, its content, its
  attributes and its children (\<open>null\<close> and the empty array are the same to the source,
  which tests \<open>children && children.length\<close>).
\<close>

datatype Token =
  Token (token_type: string) (token_map: "(nat \<times> nat) option") (token_content: string)
        (token_attrs: "(string \<times> string) list") (token_children: "Token list")

record TokenAndPosition =
  tnp_token :: Token
  tnp_begin :: int
  tnp_end :: int

text \<open>A start tag reported by the HTML scanner: name, attributes, \<open>location.startOffset\<close>.\<close>

record StartTag =
  tag_name :: string
  tag_attrs :: "(string \<times> string) list"
  tag_startOffset :: int

text \<open>
  The libraries the linter calls are parameters of the model: the URI parser and
  printer, the JSON parser, the Markdown parser, the HTML start-tag scanner, the two
  POSIX path functions, and the product's configured list of badge providers
  (\<open>None\<close> when the product file has no such entry).
\<close>

record Host =
  Uri_parse :: "string \<Rightarrow> Uri"
  Uri_toString :: "Uri \<Rightarrow> string"
  parseTree :: "string \<Rightarrow> JsonNode option"
  markdownIt_parse :: "string \<Rightarrow> Token list"
  startTags :: "string \<Rightarrow> StartTag list"
  posix_dirname :: "string \<Rightarrow> string"
  posix_join :: "string \<Rightarrow> string \<Rightarrow> string"
  extensionAllowedBadgeProviders :: "string list option"

definition allowedBadgeProviders :: "Host \<Rightarrow> string list" where
  "allowedBadgeProviders host =
     map toLowerCase (case extensionAllowedBadgeProviders host of None \<Rightarrow> [] | Some l \<Rightarrow> l)"

section \<open>The URL validator\<close>

definition addDiagnostics ::
  "Host \<Rightarrow> Diagnostic list \<Rightarrow> int \<Rightarrow> int \<Rightarrow> string \<Rightarrow> Context \<Rightarrow> PackageJsonInfo
    \<Rightarrow> Diagnostic list" where
  "addDiagnostics host diagnostics begin end src context info =
     (let uri = Uri_parse host src;
          scheme = toLowerCase (scheme uri);
          d1 = (if scheme \<noteq> [] \<and> scheme \<noteq> ''https'' \<and> scheme \<noteq> ''data''
                then diagnostics @ [\<lparr>rangeStart = begin, rangeEnd = end, message = httpsRequired\<rparr>]
                else diagnostics);
          d2 = (if scheme = ''data''
                then d1 @ [\<lparr>rangeStart = begin, rangeEnd = end, message = dataUrlsNotValid\<rparr>]
                else d1);
          d3 = (if scheme = [] \<and> \<not> hasHttpsRepository info
                then d2 @ [\<lparr>rangeStart = begin, rangeEnd = end,
                            message = relativeUrlRequiresHttpsRepository\<rparr>]
                else d2);
          d4 = (if endsWith (toLowerCase (path uri)) ''.svg''
                   \<and> toLowerCase (authority uri) \<notin> set (allowedBadgeProviders host)
                then d3 @ [\<lparr>rangeStart = begin, rangeEnd = end, message = svgsNotValid\<rparr>]
                else d3)
      in d4)"

section \<open>The manifest scanner\<close>

text \<open>
  \<open>findNodeAtLocation\<close> of the JSON library, for the paths of property names the linter
  uses.  An absent root gives nothing.  At each segment the node must be an object
  (otherwise the result is nothing); its property nodes are tried in order, and the
  second child of the first one whose key is the segment becomes the node, which is
  undefined when that property has no value.  An undefined node is the result when
  no segment is left; when a segment is left, reading its type throws a \<open>TypeError\<close>.
  Reading the key of a property node without children throws as well.
\<close>

datatype error = TypeError

datatype PropertyLookup = NotFound | Found "JsonNode option"

fun findProperty :: "string \<Rightarrow> JsonNode list \<Rightarrow> error + PropertyLookup" where
  "findProperty segment [] = Inr NotFound"
| "findProperty segment (propertyNode # propertyNodes) =
     (case node_children propertyNode of
        [] \<Rightarrow> Inl TypeError
      | key # rest \<Rightarrow>
          if node_value key = segment
          then Inr (Found (case rest of [] \<Rightarrow> None | v # vs \<Rightarrow> Some v))
          else findProperty segment propertyNodes)"

fun locate :: "JsonNode \<Rightarrow> string list \<Rightarrow> error + JsonNode option" where
  "locate node [] = Inr (Some node)"
| "locate node (segment # segments) =
     (if node_type node \<noteq> NObject then Inr None
      else case findProperty segment (node_children node) of
             Inl e \<Rightarrow> Inl e
           | Inr NotFound \<Rightarrow> Inr None
           | Inr (Found None) \<Rightarrow> (if segments = [] then Inr None else Inl TypeError)
           | Inr (Found (Some v)) \<Rightarrow> locate v segments)"

definition findNodeAtLocation ::
  "JsonNode option \<Rightarrow> string list \<Rightarrow> error + JsonNode option" where
  "findNodeAtLocation root segments =
     (case root of None \<Rightarrow> Inr None | Some node \<Rightarrow> locate node segments)"

text \<open>
  The body of \<open>lintPackageJson\<close> that fills the list of diagnostics of one document
  (between the creation of the list and its publication).  The badge URLs are
  collected first (\<open>map\<close>, then \<open>filter\<close>), then validated in order.  A \<open>TypeError\<close> of
  \<open>findNodeAtLocation\<close> ends the body.
\<close>

fun badgeUrlNodes :: "JsonNode list \<Rightarrow> error + JsonNode option list" where
  "badgeUrlNodes [] = Inr []"
| "badgeUrlNodes (child # children) =
     (case findNodeAtLocation (Some child) [''url''] of
        Inl e \<Rightarrow> Inl e
      | Inr url \<Rightarrow>
          (case badgeUrlNodes children of
             Inl e \<Rightarrow> Inl e
           | Inr urls \<Rightarrow> Inr (url # urls)))"

definition badgeUrls :: "JsonNode \<Rightarrow> error + JsonNode list" where
  "badgeUrls badges =
     (case badgeUrlNodes (node_children badges) of
        Inl e \<Rightarrow> Inl e
      | Inr urls \<Rightarrow>
          Inr (filter (\<lambda>url. node_type url = NString) (List.map_filter (\<lambda>url. url) urls)))"

definition iconDiagnostics ::
  "Host \<Rightarrow> JsonNode option \<Rightarrow> PackageJsonInfo \<Rightarrow> Diagnostic list
    \<Rightarrow> error + Diagnostic list" where
  "iconDiagnostics host tree info diagnostics =
     (case findNodeAtLocation tree [''icon''] of
        Inl e \<Rightarrow> Inl e
      | Inr None \<Rightarrow> Inr diagnostics
      | Inr (Some icon) \<Rightarrow>
          Inr (if node_type icon = NString
               then addDiagnostics host diagnostics (node_offset icon + 1)
                      (node_offset icon + node_length icon - 1) (node_value icon) ICON info
               else diagnostics))"

definition badgesDiagnostics ::
  "Host \<Rightarrow> JsonNode option \<Rightarrow> PackageJsonInfo \<Rightarrow> Diagnostic list
    \<Rightarrow> error + Diagnostic list" where
  "badgesDiagnostics host tree info diagnostics =
     (case findNodeAtLocation tree [''badges''] of
        Inl e \<Rightarrow> Inl e
      | Inr None \<Rightarrow> Inr diagnostics
      | Inr (Some badges) \<Rightarrow>
          if node_type badges = NArray
          then (case badgeUrls badges of
                  Inl e \<Rightarrow> Inl e
                | Inr urls \<Rightarrow>
                    Inr (foldl (\<lambda>ds url. addDiagnostics host ds (node_offset url + 1)
                                  (node_offset url + node_length url - 1) (node_value url)
                                  BADGE info)
                           diagnostics urls))
          else Inr diagnostics)"

definition packageJsonDiagnostics ::
  "Host \<Rightarrow> JsonNode option \<Rightarrow> PackageJsonInfo \<Rightarrow> error + Diagnostic list" where
  "packageJsonDiagnostics host tree info =
     (if isExtension info
      then (case iconDiagnostics host tree info [] of
              Inl e \<Rightarrow> Inl e
            | Inr diagnostics \<Rightarrow> badgesDiagnostics host tree info diagnostics)
      else Inr [])"

text \<open>
  The part of \<open>readPackageJsonInfo\<close> that computes the info from the tree; the update
  of the cache and the re-queueing of prose documents follow with the orchestrator.
  The two lookups are the first statements of the function: when one of them throws,
  nothing has been changed yet.
\<close>

definition computePackageJsonInfo :: "Host \<Rightarrow> JsonNode option \<Rightarrow> error + PackageJsonInfo" where
  "computePackageJsonInfo host tree =
     (case findNodeAtLocation tree [''engines'', ''vscode''] of
        Inl e \<Rightarrow> Inl e
      | Inr engine \<Rightarrow>
          (case findNodeAtLocation tree [''repository'', ''url''] of
             Inl e \<Rightarrow> Inl e
           | Inr repo \<Rightarrow>
               Inr \<lparr>isExtension =
                      (case engine of None \<Rightarrow> False | Some e \<Rightarrow> node_type e = NString),
                    hasHttpsRepository =
                      (case repo of
                         None \<Rightarrow> False
                       | Some r \<Rightarrow> node_type r = NString \<and> node_value r \<noteq> []
                            \<and> toLowerCase (scheme (Uri_parse host (node_value r)))
                                = ''https'')\<rparr>))"

section \<open>The Markdown position mapper\<close>

text \<open>\<open>token.attrGet(name)\<close>: the value of the first attribute of that name.\<close>

definition attrGet :: "Token \<Rightarrow> string \<Rightarrow> string option" where
  "attrGet token name = map_of (token_attrs token) name"

text \<open>
  The content a token is searched by: the \<open>src\<close> of an image when it is a non-empty
  string, the token's content otherwise.
\<close>

definition tokenSearchContent :: "Token \<Rightarrow> string" where
  "tokenSearchContent token =
     (if token_type token = ''image'' then
        (case attrGet token ''src'' of
           None \<Rightarrow> token_content token
         | Some src \<Rightarrow> if src \<noteq> [] then src else token_content token)
      else token_content token)"

text \<open>
  The callback of \<open>tokens.map\<close> in \<open>toTokensAndPositions\<close>: it returns the positioned
  token together with the value of the shared variable \<open>begin\<close> after the call.
  \<open>offsetAt line\<close> is the document's offset of column 0 of that line.
\<close>

definition positionToken ::
  "string \<Rightarrow> (nat \<Rightarrow> int) \<Rightarrow> Token \<Rightarrow> int \<Rightarrow> int \<Rightarrow> TokenAndPosition \<times> int" where
  "positionToken text offsetAt token begin end =
     (case token_map token of
        Some (line0, line1) \<Rightarrow>
          (\<lparr>tnp_token = token, tnp_begin = offsetAt line0, tnp_end = offsetAt line1\<rparr>,
           offsetAt line1)
      | None \<Rightarrow>
          (let content = tokenSearchContent token;
               tokenBegin = indexOf text content begin;
               tokenEnd = tokenBegin + int (length content)
           in if content \<noteq> [] \<and> tokenBegin \<noteq> - 1 \<and> tokenEnd \<le> end
              then (\<lparr>tnp_token = token, tnp_begin = tokenBegin, tnp_end = tokenEnd\<rparr>, tokenEnd)
              else (\<lparr>tnp_token = token, tnp_begin = begin, tnp_end = begin\<rparr>, begin)))"

fun positionTokens ::
  "string \<Rightarrow> (nat \<Rightarrow> int) \<Rightarrow> Token list \<Rightarrow> int \<Rightarrow> int \<Rightarrow> TokenAndPosition list" where
  "positionTokens text offsetAt [] begin end = []"
| "positionTokens text offsetAt (token # tokens) begin end =
     (let (tnp, begin') = positionToken text offsetAt token begin end
      in tnp # positionTokens text offsetAt tokens begin' end)"

lemma tnp_token_positionToken:
  "tnp_token (fst (positionToken text offsetAt token b e)) = token"
  by (simp add: positionToken_def Let_def split: option.split prod.split)

lemma map_tnp_token_positionTokens:
  "map tnp_token (positionTokens text offsetAt tokens b e) = tokens"
proof (induction tokens arbitrary: b)
  case Nil
  show ?case by simp
next
  case (Cons t ts)
  have "tnp_token (fst (positionToken text offsetAt t b e)) = t"
    by (rule tnp_token_positionToken)
  with Cons show ?case by (simp add: case_prod_beta)
qed

lemma size_token_children: "t \<in> set ts \<Longrightarrow> size_list size (token_children t) < size_list size ts"
proof (induction ts)
  case Nil
  then show ?case by simp
next
  case (Cons a ts)
  show ?case
  proof (cases "t = a")
    case True
    then show ?thesis by (cases a) simp
  next
    case False
    with Cons show ?thesis by simp
  qed
qed

function toTokensAndPositions ::
  "string \<Rightarrow> (nat \<Rightarrow> int) \<Rightarrow> Token list \<Rightarrow> int \<Rightarrow> int \<Rightarrow> TokenAndPosition list" where
  "toTokensAndPositions text offsetAt tokens begin end =
     (let tokensAndPositions = positionTokens text offsetAt tokens begin end
      in tokensAndPositions @
         concat (map (\<lambda>tnp. toTokensAndPositions text offsetAt (token_children (tnp_token tnp))
                               (tnp_begin tnp) (tnp_end tnp))
                     (filter (\<lambda>tnp. token_children (tnp_token tnp) \<noteq> []) tokensAndPositions)))"
  by pat_completeness auto
termination
proof (relation "measure (\<lambda>(text, offsetAt, tokens, b, e). size_list size tokens)")
  show "wf (measure (\<lambda>(text, offsetAt, tokens, b, e). size_list size tokens))"
    by simp
next
  fix content :: string and offsetAt :: "nat \<Rightarrow> int" and tokens :: "Token list"
    and b e :: int and tnps tnp
  assume tnps: "tnps = positionTokens content offsetAt tokens b e"
    and mem: "tnp \<in> set (filter (\<lambda>tnp. token_children (tnp_token tnp) \<noteq> []) tnps)"
  from mem have "tnp_token tnp \<in> set (map tnp_token tnps)" by auto
  then have "tnp_token tnp \<in> set tokens"
    by (simp only: tnps map_tnp_token_positionTokens)
  then have "size_list size (token_children (tnp_token tnp)) < size_list size tokens"
    by (rule size_token_children)
  then show "((content, offsetAt, token_children (tnp_token tnp), tnp_begin tnp, tnp_end tnp),
              (content, offsetAt, tokens, b, e))
             \<in> measure (\<lambda>(text, offsetAt, tokens, b, e). size_list size tokens)"
    by simp
qed

declare toTokensAndPositions.simps [simp del]

section \<open>The prose scanner\<close>

text \<open>
  The body of \<open>lintReadme\<close> that fills the list of diagnostics of one document, from the
  parse of its text to the publication.  \<open>imageSrc\<close> is \<open>token.attrGet('src')\<close> when it
  is a non-empty string.
\<close>

definition imageSrc :: "Token \<Rightarrow> string option" where
  "imageSrc token =
     (case attrGet token ''src'' of
        None \<Rightarrow> None
      | Some src \<Rightarrow> if src \<noteq> [] then Some src else None)"

definition imageDiagnostics ::
  "Host \<Rightarrow> string \<Rightarrow> PackageJsonInfo \<Rightarrow> Diagnostic list \<Rightarrow> TokenAndPosition \<Rightarrow> Diagnostic list"
  where
  "imageDiagnostics host text info diagnostics inp =
     (case imageSrc (tnp_token inp) of
        None \<Rightarrow> diagnostics
      | Some src \<Rightarrow>
          (let begin = indexOf text src (tnp_begin inp)
           in if begin \<noteq> - 1 \<and> begin < tnp_end inp
              then addDiagnostics host diagnostics begin (begin + int (length src)) src
                     MARKDOWN info
              else diagnostics))"

definition startTagDiagnostics ::
  "Host \<Rightarrow> string \<Rightarrow> PackageJsonInfo \<Rightarrow> TokenAndPosition \<Rightarrow> Diagnostic list \<Rightarrow> StartTag
    \<Rightarrow> Diagnostic list" where
  "startTagDiagnostics host text info tnp diagnostics tag =
     (if tag_name tag = ''img'' then
        (case map_of (tag_attrs tag) ''src'' of
           None \<Rightarrow> diagnostics
         | Some src_value \<Rightarrow>
             if src_value \<noteq> [] then
               (let begin = indexOf text src_value (tnp_begin tnp + tag_startOffset tag)
                in if begin \<noteq> - 1 \<and> begin < tnp_end tnp
                   then addDiagnostics host diagnostics begin (begin + int (length src_value))
                          src_value MARKDOWN info
                   else diagnostics)
             else diagnostics)
      else diagnostics)"

definition textDiagnostics ::
  "Host \<Rightarrow> string \<Rightarrow> PackageJsonInfo \<Rightarrow> Diagnostic list \<Rightarrow> TokenAndPosition \<Rightarrow> Diagnostic list"
  where
  "textDiagnostics host text info diagnostics tnp =
     foldl (startTagDiagnostics host text info tnp) diagnostics
       (startTags host (token_content (tnp_token tnp)))"

definition readmeDiagnostics ::
  "Host \<Rightarrow> string \<Rightarrow> (nat \<Rightarrow> int) \<Rightarrow> PackageJsonInfo \<Rightarrow> Diagnostic list" where
  "readmeDiagnostics host text offsetAt info =
     (let tokens = markdownIt_parse host text;
          tokensAndPositions = toTokensAndPositions text offsetAt tokens 0 (int (length text));
          diagnostics1 =
            foldl (imageDiagnostics host text info) []
              (filter (\<lambda>tnp. token_type (tnp_token tnp) = ''image''
                               \<and> imageSrc (tnp_token tnp) \<noteq> None) tokensAndPositions)
      in foldl (textDiagnostics host text info) diagnostics1
           (filter (\<lambda>tnp. token_type (tnp_token tnp) = ''text''
                            \<and> token_content (tnp_token tnp) \<noteq> []) tokensAndPositions))"

section \<open>The orchestrator\<close>

text \<open>
  A \<open>TextDocument\<close> object is identified by \<open>doc_ident\<close> and keeps its URI and language;
  what changes over its life (open or closed, its text, the offsets of its lines) is
  read from the workspace at the time of the call.  \<open>openTextDocument\<close> gives the text
  of the document at a URI, or nothing when the promise is rejected.
\<close>

record TextDocument =
  doc_ident :: nat
  uri :: Uri
  languageId :: string

record Workspace =
  isClosed :: "TextDocument \<Rightarrow> bool"
  getText :: "TextDocument \<Rightarrow> string"
  offsetAt :: "TextDocument \<Rightarrow> nat \<Rightarrow> int"
  textDocuments :: "TextDocument list"
  openTextDocument :: "Uri \<Rightarrow> string option"

text \<open>
  The fields of the class.  The two queues are sets in insertion order; \<open>timer\<close> says
  that a timeout is pending.
\<close>

record ExtensionLinter =
  diagnosticsCollection :: "Uri \<rightharpoonup> Diagnostic list"
  folderToPackageJsonInfo :: "string \<rightharpoonup> PackageJsonInfo"
  packageJsonQ :: "TextDocument list"
  readmeQ :: "TextDocument list"
  timer :: bool

definition setAdd :: "'a \<Rightarrow> 'a list \<Rightarrow> 'a list" where
  "setAdd x q = (if x \<in> set q then q else q @ [x])"

definition setDelete :: "'a \<Rightarrow> 'a list \<Rightarrow> 'a list" where
  "setDelete x q = removeAll x q"

definition startTimer :: "ExtensionLinter \<Rightarrow> ExtensionLinter" where
  "startTimer lnt = lnt\<lparr>timer := True\<rparr>"

definition queueReadme :: "ExtensionLinter \<Rightarrow> TextDocument \<Rightarrow> ExtensionLinter" where
  "queueReadme lnt document =
     (let p = path (uri document)
      in if languageId document = ''markdown''
            \<and> (endsWith (toLowerCase p) ''/readme.md''
                \<or> endsWith (toLowerCase p) ''/changelog.md'')
         then startTimer (lnt\<lparr>readmeQ := setAdd document (readmeQ lnt)\<rparr>)
         else lnt)"

definition queue :: "ExtensionLinter \<Rightarrow> TextDocument \<Rightarrow> ExtensionLinter" where
  "queue lnt document =
     (let p = path (uri document);
          lnt1 = (if languageId document = ''json'' \<and> endsWith p ''/package.json''
                  then startTimer (lnt\<lparr>packageJsonQ := setAdd document (packageJsonQ lnt)\<rparr>)
                  else lnt)
      in queueReadme lnt1 document)"

definition clear :: "ExtensionLinter \<Rightarrow> TextDocument \<Rightarrow> ExtensionLinter" where
  "clear lnt document =
     lnt\<lparr>diagnosticsCollection := (diagnosticsCollection lnt)(uri document := None),
         packageJsonQ := setDelete document (packageJsonQ lnt)\<rparr>"

definition getUriFolder :: "Host \<Rightarrow> Uri \<Rightarrow> Uri" where
  "getUriFolder host u = u\<lparr>path := posix_dirname host (path u)\<rparr>"

definition readPackageJsonInfo ::
  "Host \<Rightarrow> Workspace \<Rightarrow> ExtensionLinter \<Rightarrow> Uri \<Rightarrow> JsonNode option
    \<Rightarrow> error + PackageJsonInfo \<times> ExtensionLinter" where
  "readPackageJsonInfo host ws lnt folder tree =
     (case computePackageJsonInfo host tree of
        Inl e \<Rightarrow> Inl e
      | Inr info \<Rightarrow>
          (let str = Uri_toString host folder;
               lnt1 = (case folderToPackageJsonInfo lnt str of
                         None \<Rightarrow> lnt
                       | Some oldInfo \<Rightarrow>
                           if isExtension oldInfo \<noteq> isExtension info
                              \<or> hasHttpsRepository oldInfo \<noteq> hasHttpsRepository info
                           then foldl queueReadme lnt
                                  (filter (\<lambda>document.
                                       toLowerCase
                                         (Uri_toString host (getUriFolder host (uri document)))
                                       = toLowerCase str)
                                     (textDocuments ws))
                           else lnt)
           in Inr (info,
                   lnt1\<lparr>folderToPackageJsonInfo :=
                          (folderToPackageJsonInfo lnt1)(str \<mapsto> info)\<rparr>)))"

definition loadPackageJson :: "Host \<Rightarrow> Workspace \<Rightarrow> Uri \<Rightarrow> JsonNode option" where
  "loadPackageJson host ws folder =
     (case openTextDocument ws (folder\<lparr>path := posix_join host (path folder) ''package.json''\<rparr>) of
        None \<Rightarrow> None
      | Some text \<Rightarrow> parseTree host text)"

text \<open>
  How a function or a loop body ends: it runs to its end (\<open>Normal\<close>), it leaves
  through \<open>return\<close> (\<open>Returned\<close>), or an error is thrown (\<open>Thrown\<close>); each with the state
  of the linter at that point, since what was changed before a throw stays changed.
\<close>

datatype Completion =
    Normal ExtensionLinter
  | Returned ExtensionLinter
  | Thrown error ExtensionLinter

fun linterAfter :: "Completion \<Rightarrow> ExtensionLinter" where
  "linterAfter (Normal lnt) = lnt"
| "linterAfter (Returned lnt) = lnt"
| "linterAfter (Thrown e lnt) = lnt"

text \<open>
  The callback of \<open>packageJsonQ.forEach\<close>, and the iteration over the queue.  The
  \<open>return\<close> for a closed document ends the callback only; a throw ends the iteration.
\<close>

definition lintPackageJson_document ::
  "Host \<Rightarrow> Workspace \<Rightarrow> ExtensionLinter \<Rightarrow> TextDocument \<Rightarrow> Completion" where
  "lintPackageJson_document host ws lnt document =
     (let lnt1 = lnt\<lparr>packageJsonQ := setDelete document (packageJsonQ lnt)\<rparr>
      in if isClosed ws document then Normal lnt1
         else
           (let tree = parseTree host (getText ws document)
            in case readPackageJsonInfo host ws lnt1 (getUriFolder host (uri document)) tree of
                 Inl e \<Rightarrow> Thrown e lnt1
               | Inr (info, lnt2) \<Rightarrow>
                   (case packageJsonDiagnostics host tree info of
                      Inl e \<Rightarrow> Thrown e lnt2
                    | Inr diagnostics \<Rightarrow>
                        Normal (lnt2\<lparr>diagnosticsCollection :=
                                       (diagnosticsCollection lnt2)
                                         (uri document \<mapsto> diagnostics)\<rparr>))))"

fun lintPackageJson_loop ::
  "Host \<Rightarrow> Workspace \<Rightarrow> ExtensionLinter \<Rightarrow> TextDocument list \<Rightarrow> Completion" where
  "lintPackageJson_loop host ws lnt [] = Normal lnt"
| "lintPackageJson_loop host ws lnt (document # documents) =
     (case lintPackageJson_document host ws lnt document of
        Thrown e lnt1 \<Rightarrow> Thrown e lnt1
      | Normal lnt1 \<Rightarrow> lintPackageJson_loop host ws lnt1 documents
      | Returned lnt1 \<Rightarrow> lintPackageJson_loop host ws lnt1 documents)"

definition lintPackageJson :: "Host \<Rightarrow> Workspace \<Rightarrow> ExtensionLinter \<Rightarrow> Completion" where
  "lintPackageJson host ws lnt = lintPackageJson_loop host ws lnt (packageJsonQ lnt)"

text \<open>
  The \<open>for ... of\<close> loop of \<open>lintReadme\<close> over the copy of the queue taken at its start.
  The two \<open>return\<close> statements of the loop body leave the function, so the recursion
  goes on only after a document has been scanned.  The awaited load of the manifest
  gives its result at once: no notification is handled in the middle of a scan.
\<close>

fun lintReadme_loop ::
  "Host \<Rightarrow> Workspace \<Rightarrow> ExtensionLinter \<Rightarrow> TextDocument list \<Rightarrow> Completion" where
  "lintReadme_loop host ws lnt [] = Normal lnt"
| "lintReadme_loop host ws lnt (document # documents) =
     (let lnt1 = lnt\<lparr>readmeQ := setDelete document (readmeQ lnt)\<rparr>
      in if isClosed ws document then Returned lnt1
         else
           (let folder = getUriFolder host (uri document)
            in case (case folderToPackageJsonInfo lnt1 (Uri_toString host folder) of
                       Some cached \<Rightarrow> Inr (cached, lnt1)
                     | None \<Rightarrow> readPackageJsonInfo host ws lnt1 folder
                                 (loadPackageJson host ws folder)) of
                 Inl e \<Rightarrow> Thrown e lnt1
               | Inr (info, lnt2) \<Rightarrow>
                   if \<not> isExtension info
                   then Returned (lnt2\<lparr>diagnosticsCollection :=
                                         (diagnosticsCollection lnt2)(uri document \<mapsto> [])\<rparr>)
                   else lintReadme_loop host ws
                          (lnt2\<lparr>diagnosticsCollection :=
                                 (diagnosticsCollection lnt2)
                                   (uri document \<mapsto>
                                      readmeDiagnostics host (getText ws document)
                                        (offsetAt ws document) info)\<rparr>)
                          documents))"

definition lintReadme :: "Host \<Rightarrow> Workspace \<Rightarrow> ExtensionLinter \<Rightarrow> Completion" where
  "lintReadme host ws lnt = lintReadme_loop host ws lnt (readmeQ lnt)"

text \<open>\<open>lint\<close>: the prose queue is scanned unless the scan of the manifest queue has thrown.\<close>

definition lint :: "Host \<Rightarrow> Workspace \<Rightarrow> ExtensionLinter \<Rightarrow> Completion" where
  "lint host ws lnt =
     (case lintPackageJson host ws lnt of
        Thrown e lnt1 \<Rightarrow> Thrown e lnt1
      | Normal lnt1 \<Rightarrow> lintReadme host ws lnt1
      | Returned lnt1 \<Rightarrow> lintReadme host ws lnt1)"

text \<open>
  The timeout set by \<open>startTimer\<close> fires: no timeout is pending any more, and \<open>lint\<close>
  runs.  A thrown error is caught and written to the console; the linter goes on in
  the state it is in.
\<close>

definition timerFires :: "Host \<Rightarrow> Workspace \<Rightarrow> ExtensionLinter \<Rightarrow> ExtensionLinter" where
  "timerFires host ws lnt = linterAfter (lint host ws (lnt\<lparr>timer := False\<rparr>))"

text \<open>The constructor: empty fields, then every document of the workspace is queued.\<close>

definition ExtensionLinter_new :: "Workspace \<Rightarrow> ExtensionLinter" where
  "ExtensionLinter_new ws =
     foldl queue
       \<lparr>diagnosticsCollection = Map.empty, folderToPackageJsonInfo = Map.empty,
        packageJsonQ = [], readmeQ = [], timer = False\<rparr>
       (textDocuments ws)"

text \<open>
  The states the linter can be in, when \<open>documents\<close> are the documents that exist:
  after its construction, after an open or change notification (\<open>queue\<close>), after a
  close notification (\<open>clear\<close>), and after the pending timeout has fired, each in
  whatever state the workspace is in at that time.
\<close>

inductive reachable :: "Host \<Rightarrow> TextDocument set \<Rightarrow> ExtensionLinter \<Rightarrow> bool"
  for host :: Host and documents :: "TextDocument set" where
  constructed:
    "set (textDocuments ws) \<subseteq> documents \<Longrightarrow> reachable host documents (ExtensionLinter_new ws)"
| notified:
    "reachable host documents lnt \<Longrightarrow> document \<in> documents
     \<Longrightarrow> reachable host documents (queue lnt document)"
| closed:
    "reachable host documents lnt \<Longrightarrow> document \<in> documents
     \<Longrightarrow> reachable host documents (clear lnt document)"
| fired:
    "reachable host documents lnt \<Longrightarrow> timer lnt \<Longrightarrow> set (textDocuments ws) \<subseteq> documents
     \<Longrightarrow> reachable host documents (timerFires host ws lnt)"

section \<open>Notions used in the statements\<close>

text \<open>A diagnostic lies within a text: \<open>0 \<le> start \<le> end \<le> length\<close>.\<close>

definition withinText :: "string \<Rightarrow> Diagnostic \<Rightarrow> bool" where
  "withinText text d =
     (0 \<le> rangeStart d \<and> rangeStart d \<le> rangeEnd d \<and> rangeEnd d \<le> int (length text))"

text \<open>
  The string nodes of a manifest that the claims speak of, read off the tree without
  the scanner's lookup: \<open>fieldNamed object name\<close> is the value of the first property
  of an object whose key is \<open>name\<close>; the reported nodes are the \<open>icon\<close> field of the
  root when it is a string, then, when the \<open>badges\<close> field is an array, the
  string-typed \<open>url\<close> fields of its elements in order.
\<close>

definition fieldNamed :: "JsonNode \<Rightarrow> string \<Rightarrow> JsonNode option" where
  "fieldNamed object name =
     (if node_type object \<noteq> NObject then None
      else case filter (\<lambda>p. case node_children p of [] \<Rightarrow> False
                                  | k # vs \<Rightarrow> node_value k = name)
                       (node_children object) of
             [] \<Rightarrow> None
           | p # ps \<Rightarrow> (case node_children p of k # v # vs \<Rightarrow> Some v | _ \<Rightarrow> None))"

definition stringField :: "JsonNode \<Rightarrow> string \<Rightarrow> JsonNode list" where
  "stringField object name =
     (case fieldNamed object name of
        None \<Rightarrow> []
      | Some v \<Rightarrow> if node_type v = NString then [v] else [])"

definition reportedStringNodes :: "JsonNode option \<Rightarrow> JsonNode list" where
  "reportedStringNodes tree =
     (case tree of
        None \<Rightarrow> []
      | Some root \<Rightarrow>
          stringField root ''icon''
          @ (case fieldNamed root ''badges'' of
               None \<Rightarrow> []
             | Some badges \<Rightarrow>
                 if node_type badges = NArray
                 then concat (map (\<lambda>child. stringField child ''url'') (node_children badges))
                 else []))"

text \<open>
  The issues of one reported node: the validator on its value, with the range from
  its offset + 1 to its offset + length - 1.
\<close>

definition nodeDiagnostics :: "Host \<Rightarrow> PackageJsonInfo \<Rightarrow> JsonNode \<Rightarrow> Diagnostic list" where
  "nodeDiagnostics host info n =
     addDiagnostics host [] (node_offset n + 1) (node_offset n + node_length n - 1)
       (node_value n) ICON info"

text \<open>
  A string node spans a literal with both quotation marks inside a text: it has at
  least two characters and lies within the text.
\<close>

definition literalWithin :: "string \<Rightarrow> JsonNode \<Rightarrow> bool" where
  "literalWithin text n =
     (0 \<le> node_offset n \<and> 2 \<le> node_length n
      \<and> node_offset n + node_length n \<le> int (length text))"

text \<open>
  The derived content of a token in the words of the specification: the \<open>src\<close>
  attribute of an image if present, otherwise the content string.
\<close>

definition derivedContent :: "Token \<Rightarrow> string" where
  "derivedContent token =
     (if token_type token = ''image'' then
        (case attrGet token ''src'' of
           None \<Rightarrow> token_content token
         | Some src \<Rightarrow> src)
      else token_content token)"

text \<open>The two kinds of document that \<open>queue\<close> and \<open>queueReadme\<close> accept.\<close>

definition isPackageJsonDocument :: "TextDocument \<Rightarrow> bool" where
  "isPackageJsonDocument document =
     (languageId document = ''json'' \<and> endsWith (path (uri document)) ''/package.json'')"

definition isReadmeDocument :: "TextDocument \<Rightarrow> bool" where
  "isReadmeDocument document =
     (languageId document = ''markdown''
      \<and> (endsWith (toLowerCase (path (uri document))) ''/readme.md''
          \<or> endsWith (toLowerCase (path (uri document))) ''/changelog.md''))"

text \<open>
  Queues and published issues belong to accepted documents only: every queued
  document is one of \<open>documents\<close> and of the kind of its queue, and every URI with
  published issues is the URI of an accepted document among \<open>documents\<close>.
\<close>

definition onlyAcceptedDocuments :: "TextDocument set \<Rightarrow> ExtensionLinter \<Rightarrow> bool" where
  "onlyAcceptedDocuments documents lnt =
     ((\<forall>d \<in> set (packageJsonQ lnt). d \<in> documents \<and> isPackageJsonDocument d)
      \<and> (\<forall>d \<in> set (readmeQ lnt). d \<in> documents \<and> isReadmeDocument d)
      \<and> (\<forall>u \<in> dom (diagnosticsCollection lnt).
            \<exists>d \<in> documents. uri d = u \<and> (isPackageJsonDocument d \<or> isReadmeDocument d)))"

text \<open>
  The manifest of a folder is read without error and gives no extension: the file
  cannot be opened or parsed (\<open>loadPackageJson\<close> returns nothing), or the two lookups
  of \<open>readPackageJsonInfo\<close> in its tree complete and there is no string-typed
  \<open>engines.vscode\<close> node.
\<close>

definition noExtensionManifest :: "Host \<Rightarrow> Workspace \<Rightarrow> Uri \<Rightarrow> bool" where
  "noExtensionManifest host ws folder =
     (case loadPackageJson host ws folder of
        None \<Rightarrow> True
      | Some tree \<Rightarrow>
          (case findNodeAtLocation (Some tree) [''engines'', ''vscode''] of
             Inl e \<Rightarrow> False
           | Inr engine \<Rightarrow>
               (case engine of None \<Rightarrow> True | Some e \<Rightarrow> node_type e \<noteq> NString)
               \<and> (case findNodeAtLocation (Some tree) [''repository'', ''url''] of
                     Inl e \<Rightarrow> False
                   | Inr repo \<Rightarrow> True)))"

section \<open>Concrete instances\<close>

text \<open>
  Modelled from the spec: \<open>Uri.parse\<close> of the host is not among the sources.  Section
  4.1 asks for the scheme, the authority and the path of a URL string, with an empty
  scheme and authority where there is none; \<open>Uri_parse_generic\<close> splits a string into
  the five components of the generic URI syntax (scheme up to the first colon when no
  slash, question mark or hash precedes it; authority after two slashes; path up to
  the query or fragment), without percent-decoding.  It instantiates the parameter
  \<open>Uri_parse\<close> in the examples; the theorems about the linter hold for any parser.
\<close>

definition splitAt :: "(char \<Rightarrow> bool) \<Rightarrow> string \<Rightarrow> string \<times> string" where
  "splitAt stop s = (takeWhile (\<lambda>c. \<not> stop c) s, dropWhile (\<lambda>c. \<not> stop c) s)"

definition Uri_parse_generic :: "string \<Rightarrow> Uri" where
  "Uri_parse_generic s =
     (let (pre, r0) = splitAt (\<lambda>c. c \<in> set '':/?#'') s;
          (sch, r1) = (if pre \<noteq> [] \<and> take 1 r0 = '':'' then (pre, drop 1 r0) else ([], s));
          (auth, r2) = (if take 2 r1 = ''//'' then splitAt (\<lambda>c. c \<in> set ''/?#'') (drop 2 r1)
                        else ([], r1));
          (pth, r3) = splitAt (\<lambda>c. c \<in> set ''?#'') r2;
          (qry, r4) = (if take 1 r3 = ''?'' then splitAt (\<lambda>c. c = CHR ''#'') (drop 1 r3)
                       else ([], r3))
      in \<lparr>scheme = sch, authority = auth, path = pth, query = qry, fragment = drop 1 r4\<rparr>)"

text \<open>
  The manifest of the specification's round-trip example, and the tree of the JSON
  parser for it: offsets and lengths count the characters of the text, a string node
  spans its literal with both quotation marks.
\<close>

definition manifest :: string where
  \<open>manifest = ''{"engines":{"vscode":"^1.0.0"},"icon":"http://x.com/a.png"}''\<close>

definition manifestIcon :: JsonNode where
  "manifestIcon = JsonNode NString 38 20 ''http://x.com/a.png'' []"

definition manifestTree :: JsonNode where
  "manifestTree =
     JsonNode NObject 0 59 []
       [JsonNode NProperty 1 29 []
          [JsonNode NString 1 9 ''engines'' [],
           JsonNode NObject 11 19 []
             [JsonNode NProperty 12 17 []
                [JsonNode NString 12 8 ''vscode'' [],
                 JsonNode NString 21 8 ''^1.0.0'' []]]],
        JsonNode NProperty 31 27 []
          [JsonNode NString 31 6 ''icon'' [], manifestIcon]]"

text \<open>
  A manifest with two badges and an icon, and its tree; the tree of the manifest
  \<open>{"engines":}\<close>, whose property has a key and no value; and a manifest that ends
  inside the literal of the \<open>icon\<close> field, right after its opening quotation mark,
  with the tree the tolerant parser builds for it: the string node of the \<open>icon\<close> has
  length 1 and the empty value.
\<close>

definition badgeManifest :: string where
  \<open>badgeManifest = ''{"engines":{"vscode":"1"},"badges":[{"url":"http://a.b/c.svg"},{"url":"https://img.shields.io/x.svg"}],"icon":"i.png"}''\<close>

definition enginesProperty :: JsonNode where
  "enginesProperty =
     JsonNode NProperty 1 24 []
       [JsonNode NString 1 9 ''engines'' [],
        JsonNode NObject 11 14 []
          [JsonNode NProperty 12 12 []
             [JsonNode NString 12 8 ''vscode'' [], JsonNode NString 21 3 ''1'' []]]]"

definition badgeManifestTree :: JsonNode where
  "badgeManifestTree =
     JsonNode NObject 0 118 []
       [enginesProperty,
        JsonNode NProperty 26 76 []
          [JsonNode NString 26 8 ''badges'' [],
           JsonNode NArray 35 67 []
             [JsonNode NObject 36 26 []
                [JsonNode NProperty 37 24 []
                   [JsonNode NString 37 5 ''url'' [],
                    JsonNode NString 43 18 ''http://a.b/c.svg'' []]],
              JsonNode NObject 63 38 []
                [JsonNode NProperty 64 36 []
                   [JsonNode NString 64 5 ''url'' [],
                    JsonNode NString 70 30 ''https://img.shields.io/x.svg'' []]]]],
        JsonNode NProperty 103 14 []
          [JsonNode NString 103 6 ''icon'' [], JsonNode NString 110 7 ''i.png'' []]]"

definition valuelessEnginesTree :: JsonNode where
  "valuelessEnginesTree =
     JsonNode NObject 0 12 [] [JsonNode NProperty 1 10 [] [JsonNode NString 1 9 ''engines'' []]]"

definition truncatedManifest :: string where
  \<open>truncatedManifest = ''{"engines":{"vscode":"1"},"icon":"''\<close>

definition truncatedManifestTree :: JsonNode where
  "truncatedManifestTree =
     JsonNode NObject 0 34 []
       [enginesProperty,
        JsonNode NProperty 26 8 []
          [JsonNode NString 26 6 ''icon'' [], JsonNode NString 33 1 [] []]]"

text \<open>
  The prose text \<open>![alt](./img.svg)\<close> and the tokens of the Markdown parser for it: a
  paragraph of one inline token, whose child is the image.  And the image token of
  the prose text \<open>![alt]()\<close>: its \<open>src\<close> attribute is present and empty.
\<close>

definition readmeText :: string where
  "readmeText = ''![alt](./img.svg)''"

definition readmeImage :: Token where
  "readmeImage =
     Token ''image'' None ''alt'' [(''src'', ''./img.svg''), (''alt'', [])]
       [Token ''text'' None ''alt'' [] []]"

definition readmeTokens :: "Token list" where
  "readmeTokens =
     [Token ''paragraph_open'' (Some (0, 1)) [] [] [],
      Token ''inline'' (Some (0, 1)) readmeText [] [readmeImage],
      Token ''paragraph_close'' None [] [] []]"

definition emptySrcText :: string where
  "emptySrcText = ''![alt]()''"

definition emptySrcImage :: Token where
  "emptySrcImage =
     Token ''image'' None ''alt'' [(''src'', []), (''alt'', [])]
       [Token ''text'' None ''alt'' [] []]"

text \<open>
  A host for the examples: it parses the texts above (and nothing else), finds no
  HTML tag, prints a URI as scheme, authority and path, and takes the directory of a
  path by cutting its last segment.
\<close>

definition exampleHost :: Host where
  "exampleHost =
     \<lparr>Uri_parse = Uri_parse_generic,
      Uri_toString = (\<lambda>u. scheme u @ ''://'' @ authority u @ path u),
      parseTree = map_of [(manifest, manifestTree), (badgeManifest, badgeManifestTree),
                          (truncatedManifest, truncatedManifestTree)],
      markdownIt_parse = (\<lambda>t. if t = readmeText then readmeTokens else []),
      startTags = (\<lambda>c. []),
      posix_dirname = (\<lambda>p. rev (drop 1 (dropWhile (\<lambda>c. c \<noteq> CHR ''/'') (rev p)))),
      posix_join = (\<lambda>a b. a @ ''/'' @ b),
      extensionAllowedBadgeProviders = Some [''Img.Shields.io'']\<rparr>"

definition fileUri :: "string \<Rightarrow> Uri" where
  "fileUri p = \<lparr>scheme = ''file'', authority = [], path = p, query = [], fragment = []\<rparr>"

definition packageJsonDocument :: TextDocument where
  "packageJsonDocument =
     \<lparr>doc_ident = 1, uri = fileUri ''/ext/package.json'', languageId = ''json''\<rparr>"

definition readmeDocument :: TextDocument where
  "readmeDocument =
     \<lparr>doc_ident = 2, uri = fileUri ''/ext/README.md'', languageId = ''markdown''\<rparr>"

definition changelogDocument :: TextDocument where
  "changelogDocument =
     \<lparr>doc_ident = 3, uri = fileUri ''/ext/CHANGELOG.md'', languageId = ''markdown''\<rparr>"

definition notesDocument :: TextDocument where
  "notesDocument =
     \<lparr>doc_ident = 4, uri = fileUri ''/ext/notes.txt'', languageId = ''plaintext''\<rparr>"

text \<open>
  Workspaces for the examples.  In \<open>emptyWorkspace\<close> no document is open.  In
  \<open>manifestWorkspace\<close> the manifest is open with the text of the first example, in
  \<open>truncatedWorkspace\<close> with the text that ends inside the \<open>icon\<close> literal; in
  \<open>extensionWorkspace\<close> the manifest of the first example and the README of its folder
  are both open.  In
  \<open>proseWorkspace closedDocuments\<close> the two prose documents hold the text above, those
  listed are closed, and the folder has no manifest file to open.
\<close>

definition emptyWorkspace :: Workspace where
  "emptyWorkspace =
     \<lparr>isClosed = (\<lambda>d. True), getText = (\<lambda>d. []), offsetAt = (\<lambda>d line. 0),
      textDocuments = [], openTextDocument = (\<lambda>u. None)\<rparr>"

definition manifestWorkspace :: Workspace where
  "manifestWorkspace =
     \<lparr>isClosed = (\<lambda>d. d \<noteq> packageJsonDocument), getText = (\<lambda>d. manifest),
      offsetAt = (\<lambda>d line. if line = 0 then 0 else int (length manifest)),
      textDocuments = [packageJsonDocument],
      openTextDocument = (\<lambda>u. if u = uri packageJsonDocument then Some manifest else None)\<rparr>"

definition extensionWorkspace :: Workspace where
  "extensionWorkspace =
     \<lparr>isClosed = (\<lambda>d. d \<noteq> packageJsonDocument \<and> d \<noteq> readmeDocument),
      getText = (\<lambda>d. if d = packageJsonDocument then manifest else readmeText),
      offsetAt = (\<lambda>d line. if line = 0 then 0
                             else if d = packageJsonDocument then int (length manifest)
                             else int (length readmeText)),
      textDocuments = [packageJsonDocument, readmeDocument],
      openTextDocument = (\<lambda>u. if u = uri packageJsonDocument then Some manifest else None)\<rparr>"

definition truncatedWorkspace :: Workspace where
  "truncatedWorkspace =
     manifestWorkspace
       \<lparr>getText := (\<lambda>d. truncatedManifest),
        offsetAt := (\<lambda>d line. if line = 0 then 0 else int (length truncatedManifest)),
        openTextDocument :=
          (\<lambda>u. if u = uri packageJsonDocument then Some truncatedManifest else None)\<rparr>"

definition proseWorkspace :: "TextDocument list \<Rightarrow> Workspace" where
  "proseWorkspace closedDocuments =
     \<lparr>isClosed = (\<lambda>d. d \<in> set closedDocuments), getText = (\<lambda>d. readmeText),
      offsetAt = (\<lambda>d line. if line = 0 then 0 else int (length readmeText)),
      textDocuments = filter (\<lambda>d. d \<notin> set closedDocuments) [readmeDocument, changelogDocument],
      openTextDocument = (\<lambda>u. None)\<rparr>"

text \<open>
  The linter after the example manifest has been opened and scanned: the info of its
  folder is cached.
\<close>

definition linterAfterManifestScan :: ExtensionLinter where
  "linterAfterManifestScan =
     timerFires exampleHost manifestWorkspace
       (queue (ExtensionLinter_new emptyWorkspace) packageJsonDocument)"

text \<open>
  The linter after the README of a folder without manifest file has been opened and
  scanned: the folder is cached as no extension.
\<close>

definition linterAfterProseScan :: ExtensionLinter where
  "linterAfterProseScan =
     timerFires exampleHost (proseWorkspace [])
       (queue (ExtensionLinter_new emptyWorkspace) readmeDocument)"

section \<open>Properties of the URL validator\<close>

text \<open>The definitions that evaluate the examples.\<close>

lemmas example_defs =
  exampleHost_def Uri_parse_generic_def splitAt_def toLowerCase_def lowerChar_def
  upperLetters_def lowerLetters_def endsWith_def indexOf_def allowedBadgeProviders_def

text \<open>
  C2 (as stated, refuted).  The claim says that a URL whose lowercased scheme is
  \<open>data\<close> gets exactly one issue, \<open>dataUrlsNotValid\<close>.  The data URL
  \<open>data:text/plain,logo.svg\<close> has a path that ends in \<open>.svg\<close> and an empty authority,
  which is no allowed badge provider: the fourth rule of \<open>addDiagnostics\<close> fires as well,
  and two issues are emitted.
\<close>

theorem data_url_with_svg_path_two_issues:
  "toLowerCase (scheme (Uri_parse exampleHost ''data:text/plain,logo.svg'')) = ''data''
   \<and> map message (addDiagnostics exampleHost [] 0 24 ''data:text/plain,logo.svg'' MARKDOWN
          \<lparr>isExtension = True, hasHttpsRepository = False\<rparr>)
       = [dataUrlsNotValid, svgsNotValid]"
  by (simp add: addDiagnostics_def example_defs)

text \<open>
  C2 (amended).  For every URL whose lowercased parsed scheme is \<open>data\<close>, in every
  context, \<open>addDiagnostics\<close> appends \<open>dataUrlsNotValid\<close> once, never \<open>httpsRequired\<close> nor
  \<open>relativeUrlRequiresHttpsRepository\<close>, and after it \<open>svgsNotValid\<close> exactly when the
  lowercased path ends in \<open>.svg\<close> and the lowercased authority is no allowed badge
  provider; otherwise \<open>dataUrlsNotValid\<close> is the only issue.
\<close>

theorem data_url_issues:
  assumes "toLowerCase (scheme (Uri_parse host src)) = ''data''"
  shows "addDiagnostics host diagnostics b e src context info =
           diagnostics @ \<lparr>rangeStart = b, rangeEnd = e, message = dataUrlsNotValid\<rparr> #
             (if endsWith (toLowerCase (path (Uri_parse host src))) ''.svg''
                 \<and> toLowerCase (authority (Uri_parse host src)) \<notin> set (allowedBadgeProviders host)
              then [\<lparr>rangeStart = b, rangeEnd = e, message = svgsNotValid\<rparr>] else [])"
  using assms by (simp add: addDiagnostics_def Let_def)

text \<open>Witness for C2 (amended): a base64 PNG data URL gets the one issue.\<close>

theorem data_url_issues_witness:
  "toLowerCase (scheme (Uri_parse exampleHost ''data:image/png;base64,AAA'')) = ''data''
   \<and> addDiagnostics exampleHost [] 0 25 ''data:image/png;base64,AAA'' MARKDOWN
         \<lparr>isExtension = True, hasHttpsRepository = False\<rparr>
       = [\<lparr>rangeStart = 0, rangeEnd = 25, message = dataUrlsNotValid\<rparr>]"
proof -
  have h: "toLowerCase (scheme (Uri_parse exampleHost ''data:image/png;base64,AAA'')) = ''data''"
    by (simp add: example_defs)
  have p: "\<not> endsWith (toLowerCase (path (Uri_parse exampleHost ''data:image/png;base64,AAA''))) ''.svg''"
    by (simp add: example_defs)
  show ?thesis
    using h p data_url_issues [OF h, of "[]" 0 25 MARKDOWN "\<lparr>isExtension = True, hasHttpsRepository = False\<rparr>"]
    by simp
qed

text \<open>
  C3.  For every URL string whose parsed scheme is empty, validated in any context,
  \<open>relativeUrlRequiresHttpsRepository\<close> is among the emitted issues exactly when the
  manifest info has \<open>hasHttpsRepository\<close> false: it is emitted without an HTTPS
  repository and not emitted with one.
\<close>

theorem relative_url_requires_https_repository:
  assumes "scheme (Uri_parse host src) = []"
  shows "(relativeUrlRequiresHttpsRepository
            \<in> message ` set (addDiagnostics host [] b e src context info))
         = (\<not> hasHttpsRepository info)"
  using assms by (auto simp add: addDiagnostics_def Let_def toLowerCase_def)

text \<open>Witness for C3: the relative URL \<open>./img.svg\<close>, without and with an HTTPS repository.\<close>

theorem relative_url_requires_https_repository_witness:
  "scheme (Uri_parse exampleHost ''./img.svg'') = []
   \<and> relativeUrlRequiresHttpsRepository \<in> message ` set (addDiagnostics exampleHost [] 7 16
        ''./img.svg'' MARKDOWN \<lparr>isExtension = True, hasHttpsRepository = False\<rparr>)
   \<and> relativeUrlRequiresHttpsRepository \<notin> message ` set (addDiagnostics exampleHost [] 7 16
        ''./img.svg'' MARKDOWN \<lparr>isExtension = True, hasHttpsRepository = True\<rparr>)"
proof -
  have h: "scheme (Uri_parse exampleHost ''./img.svg'') = []"
    by (simp add: example_defs)
  show ?thesis
    using h
      relative_url_requires_https_repository [OF h, of 7 16 MARKDOWN
        "\<lparr>isExtension = True, hasHttpsRepository = False\<rparr>"]
      relative_url_requires_https_repository [OF h, of 7 16 MARKDOWN
        "\<lparr>isExtension = True, hasHttpsRepository = True\<rparr>"]
    by simp
qed

text \<open>
  C4.  For every URL whose lowercased path ends in \<open>.svg\<close> and whose lowercased
  authority is not in the list of allowed badge providers, \<open>svgsNotValid\<close> is emitted,
  whatever the scheme; when the lowercased authority is in the list, \<open>svgsNotValid\<close> is
  not emitted.  The list is \<open>allowedBadgeProviders\<close>: the configured providers,
  lowercased.
\<close>

theorem svg_disallowed_unless_allowed_provider:
  "(endsWith (toLowerCase (path (Uri_parse host src))) ''.svg''
      \<and> toLowerCase (authority (Uri_parse host src)) \<notin> set (allowedBadgeProviders host)
    \<longrightarrow> svgsNotValid \<in> message ` set (addDiagnostics host [] b e src context info))
   \<and> (toLowerCase (authority (Uri_parse host src)) \<in> set (allowedBadgeProviders host)
    \<longrightarrow> svgsNotValid \<notin> message ` set (addDiagnostics host [] b e src context info))"
  by (auto simp add: addDiagnostics_def Let_def)

text \<open>
  Witness for C4: an SVG on a host that is not listed, over HTTPS, and an SVG on the
  listed provider, over HTTP and in other letter case.
\<close>

theorem svg_disallowed_unless_allowed_provider_witness:
  "endsWith (toLowerCase (path (Uri_parse exampleHost ''https://x.com/a.SVG''))) ''.svg''
   \<and> toLowerCase (authority (Uri_parse exampleHost ''https://x.com/a.SVG''))
        \<notin> set (allowedBadgeProviders exampleHost)
   \<and> svgsNotValid \<in> message ` set (addDiagnostics exampleHost [] 1 20 ''https://x.com/a.SVG''
        BADGE \<lparr>isExtension = True, hasHttpsRepository = False\<rparr>)
   \<and> toLowerCase (authority (Uri_parse exampleHost ''http://IMG.shields.io/b.svg''))
        \<in> set (allowedBadgeProviders exampleHost)
   \<and> svgsNotValid \<notin> message ` set (addDiagnostics exampleHost [] 1 28
        ''http://IMG.shields.io/b.svg'' BADGE \<lparr>isExtension = True, hasHttpsRepository = False\<rparr>)"
proof -
  have h1: "endsWith (toLowerCase (path (Uri_parse exampleHost ''https://x.com/a.SVG''))) ''.svg''
     \<and> toLowerCase (authority (Uri_parse exampleHost ''https://x.com/a.SVG''))
        \<notin> set (allowedBadgeProviders exampleHost)"
    by (simp add: example_defs)
  have h2: "toLowerCase (authority (Uri_parse exampleHost ''http://IMG.shields.io/b.svg''))
        \<in> set (allowedBadgeProviders exampleHost)"
    by (simp add: example_defs)
  show ?thesis
    using h1 h2
      svg_disallowed_unless_allowed_provider [of exampleHost "''https://x.com/a.SVG''" 1 20 BADGE
        "\<lparr>isExtension = True, hasHttpsRepository = False\<rparr>"]
      svg_disallowed_unless_allowed_provider [of exampleHost "''http://IMG.shields.io/b.svg''" 1 28
        BADGE "\<lparr>isExtension = True, hasHttpsRepository = False\<rparr>"]
    by blast
qed

section \<open>Properties of the string primitives\<close>

lemma firstOccurrence_Some:
  "firstOccurrence needle xs = Some k \<Longrightarrow>
     k + length needle \<le> length xs \<and> take (length needle) (drop k xs) = needle"
proof (induction xs arbitrary: k)
  case Nil
  then show ?case by (simp split: if_splits)
next
  case (Cons c cs)
  show ?case
  proof (cases "prefix needle (c # cs)")
    case True
    with Cons.prems have "k = 0" by simp
    moreover from True obtain zs where "c # cs = needle @ zs" by (auto simp: prefix_def)
    ultimately show ?thesis by simp
  next
    case False
    with Cons.prems obtain j where j: "firstOccurrence needle cs = Some j" "k = Suc j"
      by auto
    from Cons.IH [OF j(1)] j(2) show ?thesis by simp
  qed
qed

lemma firstOccurrence_Some_0: "(firstOccurrence needle xs = Some 0) = prefix needle xs"
  by (cases xs) auto

lemma indexOf_found:
  assumes "indexOf text needle position \<noteq> - 1"
  shows "0 \<le> indexOf text needle position
     \<and> indexOf text needle position + int (length needle) \<le> int (length text)
     \<and> take (length needle) (drop (nat (indexOf text needle position)) text) = needle"
proof -
  define start where "start = nat (min (max position 0) (int (length text)))"
  from assms obtain k where k: "firstOccurrence needle (drop start text) = Some k"
    and r: "indexOf text needle position = int (start + k)"
    by (auto simp: indexOf_def start_def Let_def split: option.splits)
  from firstOccurrence_Some [OF k]
  have "k + length needle \<le> length text - start"
    and "take (length needle) (drop (start + k) text) = needle"
    by (simp_all add: add.commute)
  moreover have "start \<le> length text" by (simp add: start_def)
  ultimately show ?thesis using r by (simp add: nat_add_distrib)
qed

lemma endsWith_suffix: "endsWith haystack needle = suffix needle haystack"
proof -
  consider (gt) "length needle < length haystack" | (eq) "length needle = length haystack"
    | (lt) "length haystack < length needle" by linarith
  then show ?thesis
  proof cases
    case gt
    define diff where "diff = length haystack - length needle"
    have len: "length (drop diff haystack) = length needle" using gt by (simp add: diff_def)
    have st: "nat (min (max (int diff) 0) (int (length haystack))) = diff"
      by (simp add: diff_def)
    have "indexOf haystack needle (int diff) =
            (case firstOccurrence needle (drop diff haystack) of
               None \<Rightarrow> - 1 | Some k \<Rightarrow> int (diff + k))"
      by (simp only: indexOf_def Let_def st)
    then have "indexOf haystack needle (int diff) = int diff
            \<longleftrightarrow> firstOccurrence needle (drop diff haystack) = Some 0"
      by (simp split: option.splits)
    also have "\<dots> \<longleftrightarrow> prefix needle (drop diff haystack)" by (rule firstOccurrence_Some_0)
    also have "\<dots> \<longleftrightarrow> drop diff haystack = needle"
    proof
      assume "prefix needle (drop diff haystack)"
      then obtain zs where zs: "drop diff haystack = needle @ zs" by (auto simp: prefix_def)
      then have "length (drop diff haystack) = length needle + length zs" by simp
      with len have "zs = []" by simp
      with zs show "drop diff haystack = needle" by simp
    next
      assume "drop diff haystack = needle"
      then show "prefix needle (drop diff haystack)" by simp
    qed
    also have "\<dots> \<longleftrightarrow> suffix needle haystack"
    proof
      assume "drop diff haystack = needle"
      then have "haystack = take diff haystack @ needle"
        by (metis append_take_drop_id)
      then show "suffix needle haystack" by (rule suffixI)
    next
      assume "suffix needle haystack"
      then obtain ys where ys: "haystack = ys @ needle" by (auto simp: suffix_def)
      then have "length ys = diff" by (simp add: diff_def)
      with ys show "drop diff haystack = needle" by simp
    qed
    finally show ?thesis using gt by (simp add: endsWith_def diff_def of_nat_diff)
  next
    case eq
    then show ?thesis by (auto simp: endsWith_def suffix_def)
  next
    case lt
    then have "\<not> suffix needle haystack" by (auto simp: suffix_def)
    with lt show ?thesis by (simp add: endsWith_def)
  qed
qed

section \<open>Properties of the two scans\<close>

lemma addDiagnostics_range:
  "d \<in> set (addDiagnostics host ds b e src context info) \<Longrightarrow>
     d \<in> set ds \<or> (rangeStart d = b \<and> rangeEnd d = e)"
  by (auto simp: addDiagnostics_def Let_def split: if_splits)

lemma addDiagnostics_append:
  "addDiagnostics host ds b e src context info
   = ds @ addDiagnostics host [] b e src context' info"
  by (simp add: addDiagnostics_def Let_def)

lemma foldl_preserves:
  assumes "P a" and "\<And>a x. P a \<Longrightarrow> x \<in> set xs \<Longrightarrow> P (f a x)"
  shows "P (foldl f a xs)"
  using assms by (induction xs arbitrary: a) auto

lemma findProperty_filter:
  assumes "findProperty segment ps = Inr r"
  shows "r = (case filter (\<lambda>p. case node_children p of [] \<Rightarrow> False
                                    | k # vs \<Rightarrow> node_value k = segment) ps of
                [] \<Rightarrow> NotFound
              | p # qs \<Rightarrow> Found (case node_children p of k # v # vs \<Rightarrow> Some v | _ \<Rightarrow> None))"
  using assms
proof (induction ps)
  case Nil
  then show ?case by simp
next
  case (Cons p ps)
  show ?case
  proof (cases "node_children p")
    case Nil
    with Cons.prems show ?thesis by simp
  next
    case (Cons k rest)
    show ?thesis
    proof (cases "node_value k = segment")
      case True
      with Cons Cons.prems show ?thesis by (cases rest) auto
    next
      case False
      with Cons Cons.prems Cons.IH show ?thesis by simp
    qed
  qed
qed

lemma locate_field:
  assumes "locate node [name] = Inr r"
  shows "r = fieldNamed node name"
proof (cases "node_type node = NObject")
  case False
  with assms show ?thesis by (simp add: fieldNamed_def)
next
  case True
  from assms True obtain l where l: "findProperty name (node_children node) = Inr l"
    by (cases "findProperty name (node_children node)") auto
  note f = findProperty_filter [OF l]
  show ?thesis
  proof (cases "filter (\<lambda>p. case node_children p of [] \<Rightarrow> False
                                | k # vs \<Rightarrow> node_value k = name) (node_children node)")
    case Nil
    with f assms l True show ?thesis by (simp add: fieldNamed_def)
  next
    case (Cons p qs)
    with f have l': "l = Found (case node_children p of k # v # vs \<Rightarrow> Some v | _ \<Rightarrow> None)"
      by simp
    show ?thesis
    proof (cases "case node_children p of k # v # vs \<Rightarrow> Some v | _ \<Rightarrow> None")
      case None
      with assms l l' True Cons show ?thesis by (simp add: fieldNamed_def)
    next
      case (Some v)
      with assms l l' True Cons show ?thesis by (simp add: fieldNamed_def)
    qed
  qed
qed

lemma findNodeAtLocation_field:
  "findNodeAtLocation (Some node) [name] = Inr r \<Longrightarrow> r = fieldNamed node name"
  by (simp add: findNodeAtLocation_def locate_field)

lemma badgeUrlNodes_fields:
  "badgeUrlNodes children = Inr urls \<Longrightarrow> urls = map (\<lambda>c. fieldNamed c ''url'') children"
proof (induction children arbitrary: urls)
  case Nil
  then show ?case by simp
next
  case (Cons c cs)
  from Cons.prems obtain u us where
    u: "findNodeAtLocation (Some c) [''url''] = Inr u"
    and us: "badgeUrlNodes cs = Inr us" and urls: "urls = u # us"
    by (auto split: sum.splits)
  from findNodeAtLocation_field [OF u] Cons.IH [OF us] urls show ?case by simp
qed

lemma string_fields:
  "filter (\<lambda>url. node_type url = NString)
     (List.map_filter (\<lambda>url. url) (map (\<lambda>c. fieldNamed c name) children))
   = concat (map (\<lambda>c. stringField c name) children)"
  by (induction children)
    (auto simp: List.map_filter_def stringField_def split: option.splits)

lemma badgeUrls_fields:
  assumes "badgeUrls badges = Inr urls"
  shows "urls = concat (map (\<lambda>child. stringField child ''url'') (node_children badges))"
proof -
  from assms obtain us where us: "badgeUrlNodes (node_children badges) = Inr us"
    and urls: "urls = filter (\<lambda>url. node_type url = NString) (List.map_filter (\<lambda>url. url) us)"
    by (auto simp: badgeUrls_def split: sum.splits)
  from badgeUrlNodes_fields [OF us] urls show ?thesis by (simp add: string_fields)
qed

lemma foldl_nodeDiagnostics:
  "foldl (\<lambda>ds url. addDiagnostics host ds (node_offset url + 1)
            (node_offset url + node_length url - 1) (node_value url) BADGE info) ds urls
   = ds @ concat (map (nodeDiagnostics host info) urls)"
proof (induction urls arbitrary: ds)
  case Nil
  show ?case by simp
next
  case (Cons u us)
  have "addDiagnostics host ds (node_offset u + 1) (node_offset u + node_length u - 1)
          (node_value u) BADGE info
        = ds @ nodeDiagnostics host info u"
    unfolding nodeDiagnostics_def by (rule addDiagnostics_append)
  with Cons.IH show ?case by simp
qed

lemma iconDiagnostics_field:
  assumes "iconDiagnostics host (Some root) info [] = Inr ds"
  shows "ds = concat (map (nodeDiagnostics host info) (stringField root ''icon''))"
proof -
  from assms obtain r where r: "findNodeAtLocation (Some root) [''icon''] = Inr r"
    by (auto simp: iconDiagnostics_def split: sum.splits)
  from findNodeAtLocation_field [OF r] have f: "fieldNamed root ''icon'' = r" by simp
  show ?thesis
  proof (cases r)
    case None
    with assms r f show ?thesis by (simp add: iconDiagnostics_def stringField_def)
  next
    case (Some icon)
    with assms r f show ?thesis
      by (auto simp: iconDiagnostics_def stringField_def nodeDiagnostics_def)
  qed
qed

lemma badgesDiagnostics_field:
  assumes "badgesDiagnostics host (Some root) info ds0 = Inr ds"
  shows "ds = ds0 @ concat (map (nodeDiagnostics host info)
                (case fieldNamed root ''badges'' of
                   None \<Rightarrow> []
                 | Some badges \<Rightarrow>
                     if node_type badges = NArray
                     then concat (map (\<lambda>child. stringField child ''url'')
                                   (node_children badges))
                     else []))"
proof -
  from assms obtain r where r: "findNodeAtLocation (Some root) [''badges''] = Inr r"
    by (auto simp: badgesDiagnostics_def split: sum.splits)
  from findNodeAtLocation_field [OF r] have f: "fieldNamed root ''badges'' = r" by simp
  show ?thesis
  proof (cases r)
    case None
    with assms r f show ?thesis by (simp add: badgesDiagnostics_def)
  next
    case (Some badges)
    show ?thesis
    proof (cases "node_type badges = NArray")
      case False
      with Some assms r f show ?thesis by (simp add: badgesDiagnostics_def)
    next
      case True
      with Some assms r obtain urls where urls: "badgeUrls badges = Inr urls"
        and ds: "ds = foldl (\<lambda>ds url. addDiagnostics host ds (node_offset url + 1)
                               (node_offset url + node_length url - 1) (node_value url)
                               BADGE info) ds0 urls"
        by (auto simp: badgesDiagnostics_def split: sum.splits)
      from badgeUrls_fields [OF urls] ds Some True f show ?thesis
        by (simp add: foldl_nodeDiagnostics)
    qed
  qed
qed

lemma packageJsonDiagnostics_reported:
  assumes "packageJsonDiagnostics host tree info = Inr ds"
  shows "ds = (if isExtension info
               then concat (map (nodeDiagnostics host info) (reportedStringNodes tree))
               else [])"
proof (cases "isExtension info")
  case False
  with assms show ?thesis by (simp add: packageJsonDiagnostics_def)
next
  case ext: True
  show ?thesis
  proof (cases tree)
    case None
    with assms ext show ?thesis
      by (simp add: packageJsonDiagnostics_def iconDiagnostics_def badgesDiagnostics_def
          findNodeAtLocation_def reportedStringNodes_def)
  next
    case (Some root)
    from assms ext Some obtain ds0 where
      icon: "iconDiagnostics host (Some root) info [] = Inr ds0"
      and badges: "badgesDiagnostics host (Some root) info ds0 = Inr ds"
      by (auto simp: packageJsonDiagnostics_def split: sum.splits)
    from iconDiagnostics_field [OF icon] badgesDiagnostics_field [OF badges] ext Some
    show ?thesis by (simp add: reportedStringNodes_def)
  qed
qed

lemma nodeDiagnostics_range:
  "d \<in> set (nodeDiagnostics host info n) \<Longrightarrow>
     rangeStart d = node_offset n + 1 \<and> rangeEnd d = node_offset n + node_length n - 1"
  by (auto simp: nodeDiagnostics_def dest: addDiagnostics_range)

lemma lintPackageJson_document_publishes:
  assumes "\<not> isClosed ws document"
    and "computePackageJsonInfo host (parseTree host (getText ws document)) = Inr info"
    and "packageJsonDiagnostics host (parseTree host (getText ws document)) info = Inr ds"
  shows "\<exists>lnt'. lintPackageJson_document host ws lnt document = Normal lnt'
           \<and> diagnosticsCollection lnt' (uri document) = Some ds"
  using assms
  by (simp add: lintPackageJson_document_def readPackageJsonInfo_def Let_def)

text \<open>
  The manifest \<open>{"engines":}\<close>: the lookup of \<open>engines.vscode\<close> throws, and the scan of
  an open document with this tree ends there, with the document out of the queue and
  nothing published.
\<close>

lemma valueless_engines_throws:
  "computePackageJsonInfo host (Some valuelessEnginesTree) = Inl TypeError"
  by (simp add: computePackageJsonInfo_def findNodeAtLocation_def valuelessEnginesTree_def)

lemma valueless_engines_scan_throws:
  assumes "\<not> isClosed ws document"
    and "parseTree host (getText ws document) = Some valuelessEnginesTree"
  shows "lintPackageJson_document host ws lnt document
         = Thrown TypeError (lnt\<lparr>packageJsonQ := setDelete document (packageJsonQ lnt)\<rparr>)"
  using assms
  by (simp add: lintPackageJson_document_def readPackageJsonInfo_def valueless_engines_throws)

lemma manifest_info:
  "computePackageJsonInfo host (Some manifestTree)
   = Inr \<lparr>isExtension = True, hasHttpsRepository = False\<rparr>"
  by (simp add: computePackageJsonInfo_def findNodeAtLocation_def manifestTree_def
      manifestIcon_def)

lemma manifest_icon_only:
  "packageJsonDiagnostics host (Some manifestTree)
     \<lparr>isExtension = True, hasHttpsRepository = False\<rparr>
   = Inr (addDiagnostics host [] 39 57 ''http://x.com/a.png'' ICON
            \<lparr>isExtension = True, hasHttpsRepository = False\<rparr>)"
  by (simp add: packageJsonDiagnostics_def iconDiagnostics_def badgesDiagnostics_def
      findNodeAtLocation_def manifestTree_def manifestIcon_def)

text \<open>
  C1.  When the scan of an open manifest document completes, it publishes the issues
  of its parse tree.  These are, in order, the issues of the reported string nodes
  (the \<open>icon\<close> field, then the \<open>url\<close> fields of the elements of \<open>badges\<close>), and every
  issue of a node has the range from the node's offset + 1 to its offset + length - 1,
  that is without the two quotation marks.  For the manifest
  \<open>{"engines":{"vscode":"^1.0.0"},"icon":"http://x.com/a.png"}\<close>, with its parse tree
  and a URI parser that reads the scheme \<open>http\<close> and the path \<open>/a.png\<close>, the scan yields
  exactly one issue, \<open>httpsRequired\<close>, from 39 to 57: the text between is
  \<open>http://x.com/a.png\<close>, and the characters at 38 and 57 are the quotation marks.
\<close>

theorem manifest_ranges_exclude_quotes:
  "(\<not> isClosed ws document
      \<longrightarrow> computePackageJsonInfo host (parseTree host (getText ws document)) = Inr scanned
      \<longrightarrow> packageJsonDiagnostics host (parseTree host (getText ws document)) scanned
            = Inr published
      \<longrightarrow> (\<exists>lnt'. lintPackageJson_document host ws lnt document = Normal lnt'
                  \<and> diagnosticsCollection lnt' (uri document) = Some published))
   \<and> (packageJsonDiagnostics host tree info = Inr ds
      \<longrightarrow> ds = (if isExtension info
                 then concat (map (nodeDiagnostics host info) (reportedStringNodes tree))
                 else []))
   \<and> (\<forall>d \<in> set (nodeDiagnostics host info n).
         rangeStart d = node_offset n + 1 \<and> rangeEnd d = node_offset n + node_length n - 1)
   \<and> (parseTree host' manifest = Some manifestTree
        \<longrightarrow> scheme (Uri_parse host' ''http://x.com/a.png'') = ''http''
        \<longrightarrow> path (Uri_parse host' ''http://x.com/a.png'') = ''/a.png''
        \<longrightarrow> computePackageJsonInfo host' (parseTree host' manifest)
              = Inr \<lparr>isExtension = True, hasHttpsRepository = False\<rparr>
            \<and> packageJsonDiagnostics host' (parseTree host' manifest)
                \<lparr>isExtension = True, hasHttpsRepository = False\<rparr>
              = Inr [\<lparr>rangeStart = 39, rangeEnd = 57, message = httpsRequired\<rparr>])
   \<and> take (nat (57 - 39)) (drop 39 manifest) = ''http://x.com/a.png''
   \<and> manifest ! 38 = CHR 0x22 \<and> manifest ! 57 = CHR 0x22"
proof (intro conjI impI ballI)
  assume "\<not> isClosed ws document"
    and "computePackageJsonInfo host (parseTree host (getText ws document)) = Inr scanned"
    and "packageJsonDiagnostics host (parseTree host (getText ws document)) scanned
         = Inr published"
  then show "\<exists>lnt'. lintPackageJson_document host ws lnt document = Normal lnt'
                  \<and> diagnosticsCollection lnt' (uri document) = Some published"
    by (rule lintPackageJson_document_publishes)
next
  assume "packageJsonDiagnostics host tree info = Inr ds"
  then show "ds = (if isExtension info
                 then concat (map (nodeDiagnostics host info) (reportedStringNodes tree))
                 else [])"
    by (rule packageJsonDiagnostics_reported)
next
  fix d
  assume "d \<in> set (nodeDiagnostics host info n)"
  then show "rangeStart d = node_offset n + 1" by (simp add: nodeDiagnostics_range)
next
  fix d
  assume "d \<in> set (nodeDiagnostics host info n)"
  then show "rangeEnd d = node_offset n + node_length n - 1"
    by (simp add: nodeDiagnostics_range)
next
  assume pt: "parseTree host' manifest = Some manifestTree"
  show "computePackageJsonInfo host' (parseTree host' manifest)
        = Inr \<lparr>isExtension = True, hasHttpsRepository = False\<rparr>"
    by (simp only: pt manifest_info)
next
  assume pt: "parseTree host' manifest = Some manifestTree"
    and sch: "scheme (Uri_parse host' ''http://x.com/a.png'') = ''http''"
    and pth: "path (Uri_parse host' ''http://x.com/a.png'') = ''/a.png''"
  have "addDiagnostics host' [] 39 57 ''http://x.com/a.png'' ICON
          \<lparr>isExtension = True, hasHttpsRepository = False\<rparr>
        = [\<lparr>rangeStart = 39, rangeEnd = 57, message = httpsRequired\<rparr>]"
    by (simp add: addDiagnostics_def sch pth toLowerCase_def lowerChar_def upperLetters_def
        lowerLetters_def endsWith_def indexOf_def)
  then show "packageJsonDiagnostics host' (parseTree host' manifest)
                \<lparr>isExtension = True, hasHttpsRepository = False\<rparr>
              = Inr [\<lparr>rangeStart = 39, rangeEnd = 57, message = httpsRequired\<rparr>]"
    by (simp only: pt manifest_icon_only)
next
  show "take (nat (57 - 39)) (drop 39 manifest) = ''http://x.com/a.png''"
    by (simp add: manifest_def)
next
  show "manifest ! 38 = CHR 0x22" by (simp add: manifest_def)
next
  show "manifest ! 57 = CHR 0x22" by (simp add: manifest_def)
qed

text \<open>The manifest with two badges and an icon, evaluated.\<close>

lemma badge_manifest_diagnostics:
  "packageJsonDiagnostics exampleHost (parseTree exampleHost badgeManifest)
     \<lparr>isExtension = True, hasHttpsRepository = False\<rparr>
   = Inr [\<lparr>rangeStart = 111, rangeEnd = 116, message = relativeUrlRequiresHttpsRepository\<rparr>,
          \<lparr>rangeStart = 44, rangeEnd = 60, message = httpsRequired\<rparr>,
          \<lparr>rangeStart = 44, rangeEnd = 60, message = svgsNotValid\<rparr>]"
  by code_simp

lemma badge_manifest_nodes:
  "reportedStringNodes (parseTree exampleHost badgeManifest)
   = [JsonNode NString 110 7 ''i.png'' [],
      JsonNode NString 43 18 ''http://a.b/c.svg'' [],
      JsonNode NString 70 30 ''https://img.shields.io/x.svg'' []]"
  by code_simp

text \<open>
  Witness for C1: the example manifest, open in the example workspace, and the
  manifest with an icon and two badges, whose issues are those of the icon and of the
  first badge URL, with the ranges of their literals.
\<close>

theorem manifest_ranges_exclude_quotes_witness:
  "\<not> isClosed manifestWorkspace packageJsonDocument
   \<and> parseTree exampleHost manifest = Some manifestTree
   \<and> scheme (Uri_parse exampleHost ''http://x.com/a.png'') = ''http''
   \<and> path (Uri_parse exampleHost ''http://x.com/a.png'') = ''/a.png''
   \<and> (\<exists>lnt'. lintPackageJson_document exampleHost manifestWorkspace
                 (queue (ExtensionLinter_new emptyWorkspace) packageJsonDocument)
                 packageJsonDocument = Normal lnt'
          \<and> diagnosticsCollection lnt' (uri packageJsonDocument)
              = Some [\<lparr>rangeStart = 39, rangeEnd = 57, message = httpsRequired\<rparr>])
   \<and> packageJsonDiagnostics exampleHost (parseTree exampleHost badgeManifest)
        \<lparr>isExtension = True, hasHttpsRepository = False\<rparr>
      = Inr [\<lparr>rangeStart = 111, rangeEnd = 116, message = relativeUrlRequiresHttpsRepository\<rparr>,
             \<lparr>rangeStart = 44, rangeEnd = 60, message = httpsRequired\<rparr>,
             \<lparr>rangeStart = 44, rangeEnd = 60, message = svgsNotValid\<rparr>]
   \<and> [\<lparr>rangeStart = 111, rangeEnd = 116, message = relativeUrlRequiresHttpsRepository\<rparr>,
       \<lparr>rangeStart = 44, rangeEnd = 60, message = httpsRequired\<rparr>,
       \<lparr>rangeStart = 44, rangeEnd = 60, message = svgsNotValid\<rparr>]
      = concat (map (nodeDiagnostics exampleHost \<lparr>isExtension = True, hasHttpsRepository = False\<rparr>)
          [JsonNode NString 110 7 ''i.png'' [],
           JsonNode NString 43 18 ''http://a.b/c.svg'' [],
           JsonNode NString 70 30 ''https://img.shields.io/x.svg'' []])
   \<and> take 5 (drop 111 badgeManifest) = ''i.png''
   \<and> take 16 (drop 44 badgeManifest) = ''http://a.b/c.svg''"
proof -
  let ?info = "\<lparr>isExtension = True, hasHttpsRepository = False\<rparr>"
  have open_doc: "\<not> isClosed manifestWorkspace packageJsonDocument"
    by (simp add: manifestWorkspace_def)
  have doc_text: "getText manifestWorkspace packageJsonDocument = manifest"
    by (simp add: manifestWorkspace_def)
  have pt: "parseTree exampleHost manifest = Some manifestTree"
    by (simp add: exampleHost_def)
  have sch: "scheme (Uri_parse exampleHost ''http://x.com/a.png'') = ''http''"
    by (simp add: example_defs)
  have pth: "path (Uri_parse exampleHost ''http://x.com/a.png'') = ''/a.png''"
    by (simp add: example_defs)
  note inst = manifest_ranges_exclude_quotes [where ws = manifestWorkspace
      and document = packageJsonDocument and host = exampleHost and host' = exampleHost
      and lnt = "queue (ExtensionLinter_new emptyWorkspace) packageJsonDocument"
      and tree = "parseTree exampleHost badgeManifest" and info = ?info
      and scanned = ?info
      and published = "[\<lparr>rangeStart = 39, rangeEnd = 57, message = httpsRequired\<rparr>]"
      and ds = "[\<lparr>rangeStart = 111, rangeEnd = 116,
                   message = relativeUrlRequiresHttpsRepository\<rparr>,
                 \<lparr>rangeStart = 44, rangeEnd = 60, message = httpsRequired\<rparr>,
                 \<lparr>rangeStart = 44, rangeEnd = 60, message = svgsNotValid\<rparr>]"]
  from inst pt sch pth
  have found: "computePackageJsonInfo exampleHost (parseTree exampleHost manifest) = Inr ?info
     \<and> packageJsonDiagnostics exampleHost (parseTree exampleHost manifest) ?info
        = Inr [\<lparr>rangeStart = 39, rangeEnd = 57, message = httpsRequired\<rparr>]"
    by blast
  with inst open_doc doc_text
  have published: "\<exists>lnt'. lintPackageJson_document exampleHost manifestWorkspace
                 (queue (ExtensionLinter_new emptyWorkspace) packageJsonDocument)
                 packageJsonDocument = Normal lnt'
          \<and> diagnosticsCollection lnt' (uri packageJsonDocument)
              = Some [\<lparr>rangeStart = 39, rangeEnd = 57, message = httpsRequired\<rparr>]"
    by simp
  from inst badge_manifest_diagnostics
  have reported: "[\<lparr>rangeStart = 111, rangeEnd = 116,
                   message = relativeUrlRequiresHttpsRepository\<rparr>,
                 \<lparr>rangeStart = 44, rangeEnd = 60, message = httpsRequired\<rparr>,
                 \<lparr>rangeStart = 44, rangeEnd = 60, message = svgsNotValid\<rparr>]
      = concat (map (nodeDiagnostics exampleHost ?info)
                 (reportedStringNodes (parseTree exampleHost badgeManifest)))"
    by simp
  have slices: "take 5 (drop 111 badgeManifest) = ''i.png''
      \<and> take 16 (drop 44 badgeManifest) = ''http://a.b/c.svg''"
    by (simp add: badgeManifest_def)
  from open_doc pt sch pth published badge_manifest_diagnostics
    reported [unfolded badge_manifest_nodes] slices
  show ?thesis by blast
qed

lemma imageDiagnostics_within:
  assumes "\<forall>d \<in> set ds. withinText text d"
  shows "\<forall>d \<in> set (imageDiagnostics host text info ds inp). withinText text d"
proof (cases "imageSrc (tnp_token inp)")
  case None
  with assms show ?thesis by (simp add: imageDiagnostics_def)
next
  case (Some src)
  show ?thesis
  proof (cases "indexOf text src (tnp_begin inp) \<noteq> - 1
                 \<and> indexOf text src (tnp_begin inp) < tnp_end inp")
    case False
    with Some assms show ?thesis by (auto simp: imageDiagnostics_def Let_def)
  next
    case True
    then have "0 \<le> indexOf text src (tnp_begin inp)
       \<and> indexOf text src (tnp_begin inp) + int (length src) \<le> int (length text)"
      using indexOf_found [of "text" src "tnp_begin inp"] by simp
    with Some True assms show ?thesis
      by (auto simp: imageDiagnostics_def Let_def withinText_def dest!: addDiagnostics_range)
  qed
qed

lemma startTagDiagnostics_within:
  assumes "\<forall>d \<in> set ds. withinText text d"
  shows "\<forall>d \<in> set (startTagDiagnostics host text info tnp ds tag). withinText text d"
proof (cases "tag_name tag = ''img''")
  case False
  with assms show ?thesis by (simp add: startTagDiagnostics_def)
next
  case img: True
  show ?thesis
  proof (cases "map_of (tag_attrs tag) ''src''")
    case None
    with img assms show ?thesis by (simp add: startTagDiagnostics_def)
  next
    case (Some v)
    let ?b = "indexOf text v (tnp_begin tnp + tag_startOffset tag)"
    show ?thesis
    proof (cases "v \<noteq> [] \<and> ?b \<noteq> - 1 \<and> ?b < tnp_end tnp")
      case False
      with img Some assms show ?thesis by (auto simp: startTagDiagnostics_def Let_def)
    next
      case True
      then have "0 \<le> ?b \<and> ?b + int (length v) \<le> int (length text)"
        using indexOf_found [of "text" v "tnp_begin tnp + tag_startOffset tag"] by simp
      with img Some True assms show ?thesis
        by (auto simp: startTagDiagnostics_def Let_def withinText_def
            dest!: addDiagnostics_range)
    qed
  qed
qed

lemma readmeDiagnostics_within:
  "\<forall>d \<in> set (readmeDiagnostics host text lineOffset info). withinText text d"
proof -
  let ?P = "\<lambda>ds. \<forall>d \<in> set ds. withinText text d"
  have images: "?P (foldl (imageDiagnostics host text info) [] tnps)" for tnps
    by (rule foldl_preserves [where P = ?P]) (simp, rule imageDiagnostics_within)
  have texts: "?P (foldl (textDiagnostics host text info) ds tnps)" if "?P ds" for ds tnps
  proof (rule foldl_preserves [where P = ?P])
    show "?P ds" by (rule that)
  next
    fix a x
    assume a: "?P a"
    show "?P (textDiagnostics host text info a x)"
      unfolding textDiagnostics_def
      by (rule foldl_preserves [where P = ?P]) (rule a, rule startTagDiagnostics_within)
  qed
  show ?thesis
    unfolding readmeDiagnostics_def Let_def by (rule texts) (rule images)
qed

lemma packageJsonDiagnostics_within:
  assumes wf: "\<forall>n \<in> set (reportedStringNodes tree). literalWithin content n"
    and ds: "packageJsonDiagnostics host tree info = Inr ds"
    and d: "d \<in> set ds"
  shows "withinText content d"
proof -
  from packageJsonDiagnostics_reported [OF ds] d obtain n where
    n: "n \<in> set (reportedStringNodes tree)" and dn: "d \<in> set (nodeDiagnostics host info n)"
    by (auto split: if_splits)
  from nodeDiagnostics_range [OF dn] wf n show ?thesis
    by (auto simp: withinText_def literalWithin_def)
qed

text \<open>
  C5 (as stated, refuted).  The claim says that every issue has a range with
  \<open>0 \<le> start \<le> end \<le> length\<close> of the text.  The manifest
  \<open>{"engines":{"vscode":"1"},"icon":"\<close> ends after the opening quotation mark of the
  icon: its string node has offset 33 and length 1, and the scan publishes an issue
  with the range from 34 to 33.
\<close>

theorem truncated_icon_literal_range_outside:
  "length truncatedManifest = 34
   \<and> parseTree exampleHost truncatedManifest = Some truncatedManifestTree
   \<and> \<not> isClosed truncatedWorkspace packageJsonDocument
   \<and> getText truncatedWorkspace packageJsonDocument = truncatedManifest
   \<and> diagnosticsCollection
        (timerFires exampleHost truncatedWorkspace
           (queue (ExtensionLinter_new emptyWorkspace) packageJsonDocument))
        (uri packageJsonDocument)
      = Some [\<lparr>rangeStart = 34, rangeEnd = 33, message = relativeUrlRequiresHttpsRepository\<rparr>]
   \<and> \<not> withinText truncatedManifest
          \<lparr>rangeStart = 34, rangeEnd = 33, message = relativeUrlRequiresHttpsRepository\<rparr>"
  by code_simp

text \<open>
  C5 (amended).  Every issue of a prose scan has a range with
  \<open>0 \<le> start \<le> end \<le> length\<close> of the scanned text, for every text, every token list
  of the Markdown parser and every tag list of the HTML scanner.  Every issue of a
  manifest scan has such a range when each reported string node (the \<open>icon\<close> field,
  the \<open>url\<close> fields of \<open>badges\<close>) has at least two characters and lies within the text.
\<close>

theorem issue_ranges_within_text:
  "((\<forall>n \<in> set (reportedStringNodes tree). literalWithin manifestText n)
      \<longrightarrow> packageJsonDiagnostics host tree info = Inr ds
      \<longrightarrow> (\<forall>d \<in> set ds. withinText manifestText d))
   \<and> (\<forall>d \<in> set (readmeDiagnostics host proseText lineOffset info').
          withinText proseText d)"
  using packageJsonDiagnostics_within readmeDiagnostics_within
  by blast

text \<open>The example prose scan, evaluated.\<close>

lemma readme_diagnostics:
  "readmeDiagnostics exampleHost readmeText (\<lambda>line. if line = 0 then 0 else 17)
     \<lparr>isExtension = True, hasHttpsRepository = False\<rparr>
   = [\<lparr>rangeStart = 7, rangeEnd = 16, message = relativeUrlRequiresHttpsRepository\<rparr>,
      \<lparr>rangeStart = 7, rangeEnd = 16, message = svgsNotValid\<rparr>]"
  by code_simp


text \<open>Witness for C5 (amended): the manifest with badges and the example prose text.\<close>

theorem issue_ranges_within_text_witness:
  "list_all (literalWithin badgeManifest) (reportedStringNodes (parseTree exampleHost badgeManifest))
   \<and> reportedStringNodes (parseTree exampleHost badgeManifest) \<noteq> []
   \<and> packageJsonDiagnostics exampleHost (parseTree exampleHost badgeManifest)
        \<lparr>isExtension = True, hasHttpsRepository = False\<rparr>
      = Inr [\<lparr>rangeStart = 111, rangeEnd = 116, message = relativeUrlRequiresHttpsRepository\<rparr>,
             \<lparr>rangeStart = 44, rangeEnd = 60, message = httpsRequired\<rparr>,
             \<lparr>rangeStart = 44, rangeEnd = 60, message = svgsNotValid\<rparr>]
   \<and> withinText badgeManifest
         \<lparr>rangeStart = 111, rangeEnd = 116, message = relativeUrlRequiresHttpsRepository\<rparr>
   \<and> withinText badgeManifest \<lparr>rangeStart = 44, rangeEnd = 60, message = httpsRequired\<rparr>
   \<and> readmeDiagnostics exampleHost readmeText (\<lambda>line. if line = 0 then 0 else 17)
         \<lparr>isExtension = True, hasHttpsRepository = False\<rparr>
       = [\<lparr>rangeStart = 7, rangeEnd = 16, message = relativeUrlRequiresHttpsRepository\<rparr>,
          \<lparr>rangeStart = 7, rangeEnd = 16, message = svgsNotValid\<rparr>]
   \<and> withinText readmeText
         \<lparr>rangeStart = 7, rangeEnd = 16, message = relativeUrlRequiresHttpsRepository\<rparr>
   \<and> withinText readmeText \<lparr>rangeStart = 7, rangeEnd = 16, message = svgsNotValid\<rparr>"
proof -
  have wf: "list_all (literalWithin badgeManifest)
              (reportedStringNodes (parseTree exampleHost badgeManifest))"
    by code_simp
  have nonempty: "reportedStringNodes (parseTree exampleHost badgeManifest) \<noteq> []"
    by (simp add: badge_manifest_nodes)
  from wf have wf': "\<forall>n \<in> set (reportedStringNodes (parseTree exampleHost badgeManifest)).
      literalWithin badgeManifest n"
    by (simp add: list_all_iff)
  from wf' badge_manifest_diagnostics
    issue_ranges_within_text [where tree = "parseTree exampleHost badgeManifest"
      and host = exampleHost
      and info = "\<lparr>isExtension = True, hasHttpsRepository = False\<rparr>"
      and info' = "\<lparr>isExtension = True, hasHttpsRepository = False\<rparr>"
      and lineOffset = "\<lambda>line. if line = 0 then 0 else 17"
      and manifestText = badgeManifest and proseText = readmeText
      and ds = "[\<lparr>rangeStart = 111, rangeEnd = 116,
                   message = relativeUrlRequiresHttpsRepository\<rparr>,
                 \<lparr>rangeStart = 44, rangeEnd = 60, message = httpsRequired\<rparr>,
                 \<lparr>rangeStart = 44, rangeEnd = 60, message = svgsNotValid\<rparr>]"]
  have "withinText badgeManifest
         \<lparr>rangeStart = 111, rangeEnd = 116, message = relativeUrlRequiresHttpsRepository\<rparr>
     \<and> withinText badgeManifest \<lparr>rangeStart = 44, rangeEnd = 60, message = httpsRequired\<rparr>
     \<and> withinText readmeText
         \<lparr>rangeStart = 7, rangeEnd = 16, message = relativeUrlRequiresHttpsRepository\<rparr>
     \<and> withinText readmeText \<lparr>rangeStart = 7, rangeEnd = 16, message = svgsNotValid\<rparr>"
    unfolding readme_diagnostics by simp
  with wf nonempty badge_manifest_diagnostics readme_diagnostics show ?thesis by blast
qed

section \<open>Properties of the position mapper\<close>

text \<open>
  C6 (as stated, refuted).  The claim takes the \<open>src\<close> attribute of an image, if
  present, as the derived content, and gives a token with empty derived content the
  zero-width span at the cursor.  The image of \<open>![alt]()\<close> has a present, empty \<open>src\<close>;
  the source then searches for the content \<open>alt\<close>, finds it at 2, and moves the cursor
  to 5.
\<close>

theorem empty_src_image_found_by_content:
  "token_map emptySrcImage = None
   \<and> attrGet emptySrcImage ''src'' = Some []
   \<and> derivedContent emptySrcImage = []
   \<and> positionToken emptySrcText (\<lambda>line. 0) emptySrcImage 0 8
      = (\<lparr>tnp_token = emptySrcImage, tnp_begin = 2, tnp_end = 5\<rparr>, 5)"
  by code_simp

text \<open>The content the source searches for: an empty \<open>src\<close> counts as absent.\<close>

lemma tokenSearchContent_derived:
  "tokenSearchContent token
   = (if derivedContent token = [] then token_content token else derivedContent token)"
  by (simp add: tokenSearchContent_def derivedContent_def split: option.split)

text \<open>
  C6 (amended).  The content a token is searched by is the \<open>src\<close> attribute of an image
  if present and not empty, otherwise the content string.  A token without a line
  range for which this content is empty, or is not found at or after the cursor, or is
  first found where its end exceeds the inherited bound, gets the zero-width span from
  the cursor to the cursor, and the tokens after it are positioned from the same
  cursor.
\<close>

theorem unresolved_token_zero_width:
  assumes "token_map token = None"
    and "tokenSearchContent token = []
         \<or> indexOf content (tokenSearchContent token) cursor = - 1
         \<or> indexOf content (tokenSearchContent token) cursor
              + int (length (tokenSearchContent token)) > bound"
  shows "tokenSearchContent token
           = (if derivedContent token = [] then token_content token else derivedContent token)
         \<and> positionToken content lineOffset token cursor bound
           = (\<lparr>tnp_token = token, tnp_begin = cursor, tnp_end = cursor\<rparr>, cursor)
         \<and> positionTokens content lineOffset (token # tokens) cursor bound
           = \<lparr>tnp_token = token, tnp_begin = cursor, tnp_end = cursor\<rparr>
               # positionTokens content lineOffset tokens cursor bound"
proof -
  from assms have "positionToken content lineOffset token cursor bound
           = (\<lparr>tnp_token = token, tnp_begin = cursor, tnp_end = cursor\<rparr>, cursor)"
    by (auto simp: positionToken_def Let_def)
  then show ?thesis by (simp add: tokenSearchContent_derived)
qed

text \<open>
  Witness for C6 (amended): in \<open>![alt](./img.svg)\<close> the content \<open>alt\<close> does not occur from
  offset 7 on, and the next token is searched from 7 again; in \<open>![alt]()\<close> the image with
  the empty \<open>src\<close> is searched by its content \<open>alt\<close>, which does not occur from 3 on.
\<close>

theorem unresolved_token_zero_width_witness:
  "token_map (Token ''text'' None ''alt'' [] []) = None
   \<and> indexOf readmeText (tokenSearchContent (Token ''text'' None ''alt'' [] [])) 7 = - 1
   \<and> positionTokens readmeText (\<lambda>line. 0)
        [Token ''text'' None ''alt'' [] [], Token ''text'' None ''img'' [] []] 7 16
      = [\<lparr>tnp_token = Token ''text'' None ''alt'' [] [], tnp_begin = 7, tnp_end = 7\<rparr>,
         \<lparr>tnp_token = Token ''text'' None ''img'' [] [], tnp_begin = 9, tnp_end = 12\<rparr>]
   \<and> token_map emptySrcImage = None
   \<and> tokenSearchContent emptySrcImage = ''alt''
   \<and> indexOf emptySrcText (tokenSearchContent emptySrcImage) 3 = - 1
   \<and> positionToken emptySrcText (\<lambda>line. 0) emptySrcImage 3 8
      = (\<lparr>tnp_token = emptySrcImage, tnp_begin = 3, tnp_end = 3\<rparr>, 3)"
proof -
  have m: "token_map (Token ''text'' None ''alt'' [] []) = None" by simp
  have i: "indexOf readmeText (tokenSearchContent (Token ''text'' None ''alt'' [] [])) 7 = - 1"
    by (simp add: readmeText_def tokenSearchContent_def indexOf_def)
  have rest: "positionTokens readmeText (\<lambda>line. 0) [Token ''text'' None ''img'' [] []] 7 16
      = [\<lparr>tnp_token = Token ''text'' None ''img'' [] [], tnp_begin = 9, tnp_end = 12\<rparr>]"
    by (simp add: readmeText_def tokenSearchContent_def indexOf_def positionToken_def)
  from unresolved_token_zero_width [OF m, of readmeText 7 16 "\<lambda>line. 0"
      "[Token ''text'' None ''img'' [] []]"] i
  have first: "positionTokens readmeText (\<lambda>line. 0)
        [Token ''text'' None ''alt'' [] [], Token ''text'' None ''img'' [] []] 7 16
      = \<lparr>tnp_token = Token ''text'' None ''alt'' [] [], tnp_begin = 7, tnp_end = 7\<rparr>
          # positionTokens readmeText (\<lambda>line. 0) [Token ''text'' None ''img'' [] []] 7 16"
    by blast
  have m': "token_map emptySrcImage = None" by (simp add: emptySrcImage_def)
  have c': "tokenSearchContent emptySrcImage = ''alt''"
    by (simp add: emptySrcImage_def tokenSearchContent_def attrGet_def)
  have i': "indexOf emptySrcText (tokenSearchContent emptySrcImage) 3 = - 1"
    by (simp add: c' emptySrcText_def indexOf_def)
  from unresolved_token_zero_width [OF m', of emptySrcText 3 8 "\<lambda>line. 0" "[]"] i'
  have second: "positionToken emptySrcText (\<lambda>line. 0) emptySrcImage 3 8
      = (\<lparr>tnp_token = emptySrcImage, tnp_begin = 3, tnp_end = 3\<rparr>, 3)"
    by blast
  from m i first rest m' c' i' second show ?thesis by simp
qed

section \<open>Properties of the orchestrator\<close>

lemma accepted_queueReadme:
  assumes "onlyAcceptedDocuments D lnt" and "d \<in> D"
  shows "onlyAcceptedDocuments D (queueReadme lnt d)"
  using assms
  by (auto simp: onlyAcceptedDocuments_def queueReadme_def startTimer_def setAdd_def
      isReadmeDocument_def Let_def)

lemma accepted_queue:
  assumes "onlyAcceptedDocuments D lnt" and "d \<in> D"
  shows "onlyAcceptedDocuments D (queue lnt d)"
proof -
  let ?lnt1 = "if languageId d = ''json'' \<and> endsWith (path (uri d)) ''/package.json''
               then startTimer (lnt\<lparr>packageJsonQ := setAdd d (packageJsonQ lnt)\<rparr>) else lnt"
  from assms have "onlyAcceptedDocuments D ?lnt1"
    by (auto simp: onlyAcceptedDocuments_def startTimer_def setAdd_def
        isPackageJsonDocument_def)
  then have "onlyAcceptedDocuments D (queueReadme ?lnt1 d)"
    using assms(2) by (rule accepted_queueReadme)
  then show ?thesis by (simp add: queue_def Let_def)
qed

lemma accepted_clear:
  assumes "onlyAcceptedDocuments D lnt"
  shows "onlyAcceptedDocuments D (clear lnt d)"
  using assms
  by (auto simp: onlyAcceptedDocuments_def clear_def setDelete_def dom_def split: if_splits)

lemma accepted_foldl_queueReadme:
  assumes "onlyAcceptedDocuments D lnt" and "set ds \<subseteq> D"
  shows "onlyAcceptedDocuments D (foldl queueReadme lnt ds)"
  using assms by (induction ds arbitrary: lnt) (auto intro: accepted_queueReadme)

lemma accepted_foldl_queue:
  assumes "onlyAcceptedDocuments D lnt" and "set ds \<subseteq> D"
  shows "onlyAcceptedDocuments D (foldl queue lnt ds)"
  using assms by (induction ds arbitrary: lnt) (auto intro: accepted_queue)

lemma accepted_cache:
  "onlyAcceptedDocuments D (lnt\<lparr>folderToPackageJsonInfo := m\<rparr>) = onlyAcceptedDocuments D lnt"
  by (simp add: onlyAcceptedDocuments_def)

lemma accepted_readPackageJsonInfo:
  assumes "onlyAcceptedDocuments D lnt" and "set (textDocuments ws) \<subseteq> D"
    and "readPackageJsonInfo host ws lnt folder tree = Inr (info, lnt')"
  shows "onlyAcceptedDocuments D lnt'"
proof -
  have "onlyAcceptedDocuments D (foldl queueReadme lnt (filter p (textDocuments ws)))" for p
    using assms(1,2) by (intro accepted_foldl_queueReadme) auto
  with assms(1,3) show ?thesis
    by (auto simp: readPackageJsonInfo_def Let_def accepted_cache
        split: sum.splits option.splits if_splits)
qed

lemma accepted_dequeue_packageJson:
  "onlyAcceptedDocuments D lnt \<Longrightarrow>
   onlyAcceptedDocuments D (lnt\<lparr>packageJsonQ := setDelete d (packageJsonQ lnt)\<rparr>)"
  by (simp add: onlyAcceptedDocuments_def setDelete_def)

lemma accepted_dequeue_readme:
  "onlyAcceptedDocuments D lnt \<Longrightarrow>
   onlyAcceptedDocuments D (lnt\<lparr>readmeQ := setDelete d (readmeQ lnt)\<rparr>)"
  by (simp add: onlyAcceptedDocuments_def setDelete_def)

lemma accepted_publish:
  assumes "onlyAcceptedDocuments D lnt" and "d \<in> D"
    and "isPackageJsonDocument d \<or> isReadmeDocument d"
  shows "onlyAcceptedDocuments D
           (lnt\<lparr>diagnosticsCollection := (diagnosticsCollection lnt)(uri d \<mapsto> ds)\<rparr>)"
  using assms by (auto simp: onlyAcceptedDocuments_def)

lemma accepted_lintPackageJson_document:
  assumes inv: "onlyAcceptedDocuments D lnt" and ws: "set (textDocuments ws) \<subseteq> D"
    and d: "d \<in> D" "isPackageJsonDocument d"
  shows "onlyAcceptedDocuments D (linterAfter (lintPackageJson_document host ws lnt d))"
proof -
  let ?lnt1 = "lnt\<lparr>packageJsonQ := setDelete d (packageJsonQ lnt)\<rparr>"
  let ?tree = "parseTree host (getText ws d)"
  have 1: "onlyAcceptedDocuments D ?lnt1"
    using inv by (rule accepted_dequeue_packageJson)
  show ?thesis
  proof (cases "isClosed ws d")
    case True
    with 1 show ?thesis by (simp add: lintPackageJson_document_def)
  next
    case False
    show ?thesis
    proof (cases "readPackageJsonInfo host ws ?lnt1 (getUriFolder host (uri d)) ?tree")
      case (Inl e)
      with False 1 show ?thesis by (simp add: lintPackageJson_document_def)
    next
      case (Inr r)
      obtain info lnt2 where r: "r = (info, lnt2)" by (cases r)
      from accepted_readPackageJsonInfo [OF 1 ws Inr [unfolded r]]
      have 2: "onlyAcceptedDocuments D lnt2" .
      from 2 d have 3: "onlyAcceptedDocuments D
          (lnt2\<lparr>diagnosticsCollection := (diagnosticsCollection lnt2)(uri d \<mapsto> ds)\<rparr>)" for ds
        by (intro accepted_publish) simp_all
      from False Inr r 2 3 show ?thesis
        by (simp add: lintPackageJson_document_def split: sum.split)
    qed
  qed
qed

lemma accepted_lintPackageJson_loop:
  assumes "onlyAcceptedDocuments D lnt" and "set (textDocuments ws) \<subseteq> D"
    and "\<forall>d \<in> set ds. d \<in> D \<and> isPackageJsonDocument d"
  shows "onlyAcceptedDocuments D (linterAfter (lintPackageJson_loop host ws lnt ds))"
  using assms
proof (induction ds arbitrary: lnt)
  case Nil
  then show ?case by simp
next
  case (Cons d ds)
  from Cons.prems have step:
    "onlyAcceptedDocuments D (linterAfter (lintPackageJson_document host ws lnt d))"
    by (intro accepted_lintPackageJson_document) simp_all
  show ?case
  proof (cases "lintPackageJson_document host ws lnt d")
    case (Normal lnt1)
    with step Cons.prems Cons.IH [of lnt1] show ?thesis by simp
  next
    case (Returned lnt1)
    with step Cons.prems Cons.IH [of lnt1] show ?thesis by simp
  next
    case (Thrown e lnt1)
    with step show ?thesis by simp
  qed
qed

lemma accepted_lintPackageJson:
  assumes inv: "onlyAcceptedDocuments D lnt" and ws: "set (textDocuments ws) \<subseteq> D"
  shows "onlyAcceptedDocuments D (linterAfter (lintPackageJson host ws lnt))"
  unfolding lintPackageJson_def
  using inv ws by (intro accepted_lintPackageJson_loop) (simp_all add: onlyAcceptedDocuments_def)

lemma accepted_lintReadme_loop:
  assumes "onlyAcceptedDocuments D lnt" and "set (textDocuments ws) \<subseteq> D"
    and "\<forall>d \<in> set ds. d \<in> D \<and> isReadmeDocument d"
  shows "onlyAcceptedDocuments D (linterAfter (lintReadme_loop host ws lnt ds))"
  using assms
proof (induction ds arbitrary: lnt)
  case Nil
  then show ?case by simp
next
  case (Cons d ds)
  let ?lnt1 = "lnt\<lparr>readmeQ := setDelete d (readmeQ lnt)\<rparr>"
  let ?folder = "getUriFolder host (uri d)"
  let ?r = "case folderToPackageJsonInfo ?lnt1 (Uri_toString host ?folder) of
              Some cached \<Rightarrow> Inr (cached, ?lnt1)
            | None \<Rightarrow> readPackageJsonInfo host ws ?lnt1 ?folder (loadPackageJson host ws ?folder)"
  from Cons.prems have d: "d \<in> D" "isReadmeDocument d" by simp_all
  have 1: "onlyAcceptedDocuments D ?lnt1"
    using Cons.prems(1) by (rule accepted_dequeue_readme)
  show ?case
  proof (cases "isClosed ws d")
    case True
    with 1 show ?thesis by simp
  next
    case False
    show ?thesis
    proof (cases ?r)
      case (Inl e)
      with False 1 show ?thesis by (simp add: Let_def)
    next
      case (Inr r)
      obtain info lnt2 where r: "r = (info, lnt2)" by (cases r)
      have 2: "onlyAcceptedDocuments D lnt2"
      proof (cases "folderToPackageJsonInfo ?lnt1 (Uri_toString host ?folder)")
        case None
        with Inr r have "readPackageJsonInfo host ws ?lnt1 ?folder
            (loadPackageJson host ws ?folder) = Inr (info, lnt2)" by simp
        from accepted_readPackageJsonInfo [OF 1 Cons.prems(2) this] show ?thesis .
      next
        case (Some cached)
        with Inr r 1 show ?thesis by simp
      qed
      from 2 d have 3: "onlyAcceptedDocuments D
          (lnt2\<lparr>diagnosticsCollection := (diagnosticsCollection lnt2)(uri d \<mapsto> x)\<rparr>)" for x
        by (intro accepted_publish) simp_all
      have 4: "onlyAcceptedDocuments D (linterAfter (lintReadme_loop host ws
          (lnt2\<lparr>diagnosticsCollection := (diagnosticsCollection lnt2)(uri d \<mapsto> x)\<rparr>) ds))"
        for x
        using 3 Cons.prems(2,3) by (intro Cons.IH) simp_all
      from False Inr r 3 4 show ?thesis by (simp add: Let_def)
    qed
  qed
qed

lemma accepted_timerFires:
  assumes inv: "onlyAcceptedDocuments D lnt" and ws: "set (textDocuments ws) \<subseteq> D"
  shows "onlyAcceptedDocuments D (timerFires host ws lnt)"
proof -
  let ?c = "lintPackageJson host ws (lnt\<lparr>timer := False\<rparr>)"
  from inv have "onlyAcceptedDocuments D (lnt\<lparr>timer := False\<rparr>)"
    by (simp add: onlyAcceptedDocuments_def)
  then have 1: "onlyAcceptedDocuments D (linterAfter ?c)"
    using ws by (rule accepted_lintPackageJson)
  then have q: "\<forall>d \<in> set (readmeQ (linterAfter ?c)). d \<in> D \<and> isReadmeDocument d"
    by (simp add: onlyAcceptedDocuments_def)
  have 2: "onlyAcceptedDocuments D (linterAfter (lintReadme host ws (linterAfter ?c)))"
    unfolding lintReadme_def using 1 ws q by (rule accepted_lintReadme_loop)
  show ?thesis
  proof (cases ?c)
    case (Normal lnt1)
    with 2 show ?thesis by (simp add: timerFires_def lint_def)
  next
    case (Returned lnt1)
    with 2 show ?thesis by (simp add: timerFires_def lint_def)
  next
    case (Thrown e lnt1)
    with 1 show ?thesis by (simp add: timerFires_def lint_def)
  qed
qed

lemma accepted_new:
  assumes "set (textDocuments ws) \<subseteq> D"
  shows "onlyAcceptedDocuments D (ExtensionLinter_new ws)"
  unfolding ExtensionLinter_new_def
  using assms by (intro accepted_foldl_queue) (simp_all add: onlyAcceptedDocuments_def)

lemma reachable_accepted:
  "reachable host D lnt \<Longrightarrow> onlyAcceptedDocuments D lnt"
proof (induction rule: reachable.induct)
  case (constructed ws)
  then show ?case by (rule accepted_new)
next
  case (notified lnt document)
  then show ?case by (simp add: accepted_queue)
next
  case (closed lnt document)
  then show ?case by (simp add: accepted_clear)
next
  case (fired lnt ws)
  then show ?case by (simp add: accepted_timerFires)
qed

lemma queue_other_document:
  assumes "\<not> isPackageJsonDocument d" and "\<not> isReadmeDocument d"
  shows "queue lnt d = lnt"
  using assms
  by (auto simp: queue_def queueReadme_def isPackageJsonDocument_def isReadmeDocument_def Let_def)

lemma queue_changes_packageJsonQ:
  "packageJsonQ (queue lnt d) \<noteq> packageJsonQ lnt \<Longrightarrow> isPackageJsonDocument d"
  by (auto simp: queue_def queueReadme_def isPackageJsonDocument_def startTimer_def Let_def
      split: if_splits)

lemma queue_changes_readmeQ:
  "readmeQ (queue lnt d) \<noteq> readmeQ lnt \<Longrightarrow> isReadmeDocument d"
  by (auto simp: queue_def queueReadme_def isReadmeDocument_def startTimer_def Let_def
      split: if_splits)

text \<open>
  C10.  The two tests of \<open>queue\<close> are suffix tests: a document is accepted for the
  manifest queue when its language is \<open>json\<close> and its path ends in \<open>/package.json\<close>, for
  the prose queue when its language is \<open>markdown\<close> and its lowercased path ends in
  \<open>/readme.md\<close> or \<open>/changelog.md\<close>.  An open or change notification for any other
  document leaves the linter as it is; a notification that changes a queue is for a
  document accepted for that queue.  In every reachable state both queues hold
  accepted documents only, and issues are published only under the URI of an accepted
  document.
\<close>

theorem only_accepted_documents_queued_and_published:
  "(isPackageJsonDocument document
      \<longleftrightarrow> languageId document = ''json'' \<and> suffix ''/package.json'' (path (uri document)))
   \<and> (isReadmeDocument document
      \<longleftrightarrow> languageId document = ''markdown''
          \<and> (suffix ''/readme.md'' (toLowerCase (path (uri document)))
              \<or> suffix ''/changelog.md'' (toLowerCase (path (uri document)))))
   \<and> (\<not> isPackageJsonDocument document \<and> \<not> isReadmeDocument document
      \<longrightarrow> queue lnt document = lnt)
   \<and> (packageJsonQ (queue lnt document) \<noteq> packageJsonQ lnt \<longrightarrow> isPackageJsonDocument document)
   \<and> (readmeQ (queue lnt document) \<noteq> readmeQ lnt \<longrightarrow> isReadmeDocument document)
   \<and> (reachable host documents lnt' \<longrightarrow> onlyAcceptedDocuments documents lnt')"
proof (intro conjI impI)
  show "isPackageJsonDocument document
      \<longleftrightarrow> languageId document = ''json'' \<and> suffix ''/package.json'' (path (uri document))"
    by (simp only: isPackageJsonDocument_def endsWith_suffix)
next
  show "isReadmeDocument document
      \<longleftrightarrow> languageId document = ''markdown''
          \<and> (suffix ''/readme.md'' (toLowerCase (path (uri document)))
              \<or> suffix ''/changelog.md'' (toLowerCase (path (uri document))))"
    by (simp only: isReadmeDocument_def endsWith_suffix)
next
  assume "\<not> isPackageJsonDocument document \<and> \<not> isReadmeDocument document"
  then show "queue lnt document = lnt" by (simp add: queue_other_document)
next
  assume "packageJsonQ (queue lnt document) \<noteq> packageJsonQ lnt"
  then show "isPackageJsonDocument document" by (rule queue_changes_packageJsonQ)
next
  assume "readmeQ (queue lnt document) \<noteq> readmeQ lnt"
  then show "isReadmeDocument document" by (rule queue_changes_readmeQ)
next
  assume "reachable host documents lnt'"
  then show "onlyAcceptedDocuments documents lnt'" by (rule reachable_accepted)
qed

lemma linterAfterManifestScan_reachable:
  "reachable exampleHost {packageJsonDocument, notesDocument} linterAfterManifestScan"
  unfolding linterAfterManifestScan_def
proof (rule reachable.fired)
  show "reachable exampleHost {packageJsonDocument, notesDocument}
          (queue (ExtensionLinter_new emptyWorkspace) packageJsonDocument)"
    by (rule reachable.notified, rule reachable.constructed) (simp_all add: emptyWorkspace_def)
  show "timer (queue (ExtensionLinter_new emptyWorkspace) packageJsonDocument)"
    by code_simp
  show "set (textDocuments manifestWorkspace) \<subseteq> {packageJsonDocument, notesDocument}"
    by (simp add: manifestWorkspace_def)
qed

text \<open>
  Witness for C10: a plain text document is not queued, the manifest and the prose
  document are, and after the scan of the manifest nothing is published for the
  plain text document.
\<close>

theorem only_accepted_documents_queued_and_published_witness:
  "\<not> isPackageJsonDocument notesDocument \<and> \<not> isReadmeDocument notesDocument
   \<and> isPackageJsonDocument packageJsonDocument
   \<and> queue linterAfterManifestScan notesDocument = linterAfterManifestScan
   \<and> packageJsonQ (queue (ExtensionLinter_new emptyWorkspace) packageJsonDocument)
       \<noteq> packageJsonQ (ExtensionLinter_new emptyWorkspace)
   \<and> readmeQ (queue (ExtensionLinter_new emptyWorkspace) readmeDocument)
       \<noteq> readmeQ (ExtensionLinter_new emptyWorkspace)
   \<and> isReadmeDocument readmeDocument
   \<and> reachable exampleHost {packageJsonDocument, notesDocument} linterAfterManifestScan
   \<and> diagnosticsCollection linterAfterManifestScan (uri packageJsonDocument)
          = Some [\<lparr>rangeStart = 39, rangeEnd = 57, message = httpsRequired\<rparr>]
   \<and> diagnosticsCollection linterAfterManifestScan (uri notesDocument) = None
   \<and> onlyAcceptedDocuments {packageJsonDocument, notesDocument} linterAfterManifestScan"
proof -
  have other: "\<not> isPackageJsonDocument notesDocument \<and> \<not> isReadmeDocument notesDocument"
    by code_simp
  have q1: "packageJsonQ (queue (ExtensionLinter_new emptyWorkspace) packageJsonDocument)
       \<noteq> packageJsonQ (ExtensionLinter_new emptyWorkspace)"
    by code_simp
  have q2: "readmeQ (queue (ExtensionLinter_new emptyWorkspace) readmeDocument)
       \<noteq> readmeQ (ExtensionLinter_new emptyWorkspace)"
    by code_simp
  have published: "diagnosticsCollection linterAfterManifestScan (uri packageJsonDocument)
          = Some [\<lparr>rangeStart = 39, rangeEnd = 57, message = httpsRequired\<rparr>]
      \<and> diagnosticsCollection linterAfterManifestScan (uri notesDocument) = None"
    by code_simp
  note a = only_accepted_documents_queued_and_published
    [of notesDocument linterAfterManifestScan exampleHost "{packageJsonDocument, notesDocument}"
      linterAfterManifestScan]
  note b = only_accepted_documents_queued_and_published
    [of packageJsonDocument "ExtensionLinter_new emptyWorkspace" exampleHost "{}"
      linterAfterManifestScan]
  note c = only_accepted_documents_queued_and_published
    [of readmeDocument "ExtensionLinter_new emptyWorkspace" exampleHost "{}"
      linterAfterManifestScan]
  from a other have 1: "queue linterAfterManifestScan notesDocument = linterAfterManifestScan"
    by blast
  from b q1 have 2: "isPackageJsonDocument packageJsonDocument" by blast
  from c q2 have 3: "isReadmeDocument readmeDocument" by blast
  from a linterAfterManifestScan_reachable
  have 4: "onlyAcceptedDocuments {packageJsonDocument, notesDocument} linterAfterManifestScan"
    by blast
  from other 1 2 3 4 q1 q2 published linterAfterManifestScan_reachable show ?thesis by blast
qed

text \<open>
  C7 (as stated, refuted).  The claim says that a prose document whose folder's
  manifest file is missing gets an empty issue list.  \<open>lintReadme\<close> loads the manifest
  only when the folder has no cached info.  After the manifest has been scanned, its
  info is cached; when the manifest is then closed and its file is missing
  (\<open>openTextDocument\<close> fails), the scan of \<open>![alt](./img.svg)\<close> in the folder's README
  still uses the cached info and publishes two issues.
\<close>

theorem stale_cached_info_keeps_prose_checks:
  "\<not> isClosed (proseWorkspace [packageJsonDocument]) readmeDocument
   \<and> isClosed (proseWorkspace [packageJsonDocument]) packageJsonDocument
   \<and> openTextDocument (proseWorkspace [packageJsonDocument]) (fileUri ''/ext/package.json'')
       = None
   \<and> loadPackageJson exampleHost (proseWorkspace [packageJsonDocument])
        (getUriFolder exampleHost (uri readmeDocument))
       = None
   \<and> readmeQ (queue (clear linterAfterManifestScan packageJsonDocument) readmeDocument)
       = [readmeDocument]
   \<and> diagnosticsCollection
        (timerFires exampleHost (proseWorkspace [packageJsonDocument])
           (queue (clear linterAfterManifestScan packageJsonDocument) readmeDocument))
        (uri readmeDocument)
      = Some [\<lparr>rangeStart = 7, rangeEnd = 16, message = relativeUrlRequiresHttpsRepository\<rparr>,
              \<lparr>rangeStart = 7, rangeEnd = 16, message = svgsNotValid\<rparr>]"
  by code_simp


lemma noExtensionManifest_info:
  assumes "noExtensionManifest host ws folder"
  shows "\<exists>info. computePackageJsonInfo host (loadPackageJson host ws folder) = Inr info
           \<and> \<not> isExtension info"
proof (cases "loadPackageJson host ws folder")
  case None
  then show ?thesis by (simp add: computePackageJsonInfo_def findNodeAtLocation_def)
next
  case (Some tree)
  with assms show ?thesis
    by (auto simp: noExtensionManifest_def computePackageJsonInfo_def
        split: sum.splits option.splits)
qed

text \<open>
  C7 (amended).  For the open prose document that \<open>lintReadme\<close> scans: when no info is
  cached for its folder and the folder's manifest file is missing, fails to parse, or
  is read without error and lacks a string-typed \<open>engines.vscode\<close> node, the scan
  returns with the empty issue list published for the document.  When info is cached
  for the folder, the cached \<open>isExtension\<close> alone decides and the manifest file is not
  read: for no extension the scan returns with the empty list published and nothing
  else changed but the queue; for an extension the image checks of the document are
  published with the cached info and the loop goes on.
\<close>

theorem prose_scan_without_extension_manifest:
  assumes "\<not> isClosed ws document"
  shows "(folderToPackageJsonInfo lnt (Uri_toString host (getUriFolder host (uri document)))
            = None
          \<and> noExtensionManifest host ws (getUriFolder host (uri document))
          \<longrightarrow> (\<exists>lnt'. lintReadme_loop host ws lnt (document # documents) = Returned lnt'
                  \<and> diagnosticsCollection lnt' (uri document) = Some []))
       \<and> (\<forall>cached.
            folderToPackageJsonInfo lnt (Uri_toString host (getUriFolder host (uri document)))
              = Some cached
            \<longrightarrow> lintReadme_loop host ws lnt (document # documents)
                = (if isExtension cached
                   then lintReadme_loop host ws
                          (lnt\<lparr>readmeQ := setDelete document (readmeQ lnt),
                               diagnosticsCollection :=
                                 (diagnosticsCollection lnt)
                                   (uri document \<mapsto>
                                      readmeDiagnostics host (getText ws document)
                                        (offsetAt ws document) cached)\<rparr>)
                          documents
                   else Returned
                          (lnt\<lparr>readmeQ := setDelete document (readmeQ lnt),
                               diagnosticsCollection :=
                                 (diagnosticsCollection lnt)(uri document \<mapsto> [])\<rparr>)))"
proof (intro conjI impI allI)
  let ?folder = "getUriFolder host (uri document)"
  let ?lnt1 = "lnt\<lparr>readmeQ := setDelete document (readmeQ lnt)\<rparr>"
  assume a: "folderToPackageJsonInfo lnt (Uri_toString host ?folder) = None
             \<and> noExtensionManifest host ws ?folder"
  then obtain info where info:
    "computePackageJsonInfo host (loadPackageJson host ws ?folder) = Inr info"
    "\<not> isExtension info"
    using noExtensionManifest_info by blast
  then obtain lnt2 where
    "readPackageJsonInfo host ws ?lnt1 ?folder (loadPackageJson host ws ?folder)
     = Inr (info, lnt2)"
    by (simp add: readPackageJsonInfo_def Let_def)
  with a info(2) assms
  show "\<exists>lnt'. lintReadme_loop host ws lnt (document # documents) = Returned lnt'
          \<and> diagnosticsCollection lnt' (uri document) = Some []"
    by (simp add: Let_def)
next
  fix cached
  assume "folderToPackageJsonInfo lnt (Uri_toString host (getUriFolder host (uri document)))
            = Some cached"
  with assms
  show "lintReadme_loop host ws lnt (document # documents)
        = (if isExtension cached
           then lintReadme_loop host ws
                  (lnt\<lparr>readmeQ := setDelete document (readmeQ lnt),
                       diagnosticsCollection :=
                         (diagnosticsCollection lnt)
                           (uri document \<mapsto>
                              readmeDiagnostics host (getText ws document)
                                (offsetAt ws document) cached)\<rparr>)
                  documents
           else Returned
                  (lnt\<lparr>readmeQ := setDelete document (readmeQ lnt),
                       diagnosticsCollection :=
                         (diagnosticsCollection lnt)(uri document \<mapsto> [])\<rparr>))"
    by (simp add: Let_def)
qed

text \<open>
  Witness for C7 (amended): the README of a folder without manifest file, nothing
  cached; and the same README when the folder is cached as no extension while its
  manifest file now says extension.
\<close>

theorem prose_scan_without_extension_manifest_witness:
  "\<not> isClosed (proseWorkspace []) readmeDocument
   \<and> folderToPackageJsonInfo (queue (ExtensionLinter_new emptyWorkspace) readmeDocument)
        (Uri_toString exampleHost (getUriFolder exampleHost (uri readmeDocument))) = None
   \<and> noExtensionManifest exampleHost (proseWorkspace [])
        (getUriFolder exampleHost (uri readmeDocument))
   \<and> (\<exists>lnt'. lintReadme_loop exampleHost (proseWorkspace [])
                 (queue (ExtensionLinter_new emptyWorkspace) readmeDocument) [readmeDocument]
               = Returned lnt'
          \<and> diagnosticsCollection lnt' (uri readmeDocument) = Some [])
   \<and> \<not> isClosed extensionWorkspace readmeDocument
   \<and> \<not> noExtensionManifest exampleHost extensionWorkspace
          (getUriFolder exampleHost (uri readmeDocument))
   \<and> folderToPackageJsonInfo (queue linterAfterProseScan readmeDocument)
        (Uri_toString exampleHost (getUriFolder exampleHost (uri readmeDocument)))
      = Some \<lparr>isExtension = False, hasHttpsRepository = False\<rparr>
   \<and> lintReadme_loop exampleHost extensionWorkspace (queue linterAfterProseScan readmeDocument)
        [readmeDocument]
      = Returned
          ((queue linterAfterProseScan readmeDocument)
             \<lparr>readmeQ := setDelete readmeDocument
                           (readmeQ (queue linterAfterProseScan readmeDocument)),
              diagnosticsCollection :=
                (diagnosticsCollection (queue linterAfterProseScan readmeDocument))
                  (uri readmeDocument \<mapsto> [])\<rparr>)"
proof -
  have 1: "\<not> isClosed (proseWorkspace []) readmeDocument"
    by (simp add: proseWorkspace_def)
  have 2: "folderToPackageJsonInfo (queue (ExtensionLinter_new emptyWorkspace) readmeDocument)
        (Uri_toString exampleHost (getUriFolder exampleHost (uri readmeDocument))) = None"
    by code_simp
  have 3: "noExtensionManifest exampleHost (proseWorkspace [])
        (getUriFolder exampleHost (uri readmeDocument))"
    by code_simp
  have 4: "\<not> isClosed extensionWorkspace readmeDocument"
    by code_simp
  have 5: "folderToPackageJsonInfo (queue linterAfterProseScan readmeDocument)
        (Uri_toString exampleHost (getUriFolder exampleHost (uri readmeDocument)))
      = Some \<lparr>isExtension = False, hasHttpsRepository = False\<rparr>"
    by code_simp
  from prose_scan_without_extension_manifest [OF 1, of
      "queue (ExtensionLinter_new emptyWorkspace) readmeDocument" exampleHost "[]"] 2 3
  have a: "\<exists>lnt'. lintReadme_loop exampleHost (proseWorkspace [])
                 (queue (ExtensionLinter_new emptyWorkspace) readmeDocument) [readmeDocument]
               = Returned lnt'
          \<and> diagnosticsCollection lnt' (uri readmeDocument) = Some []"
    by blast
  from prose_scan_without_extension_manifest [OF 4, of
      "queue linterAfterProseScan readmeDocument" exampleHost "[]"] 5
  have b: "lintReadme_loop exampleHost extensionWorkspace
        (queue linterAfterProseScan readmeDocument) [readmeDocument]
      = Returned
          ((queue linterAfterProseScan readmeDocument)
             \<lparr>readmeQ := setDelete readmeDocument
                           (readmeQ (queue linterAfterProseScan readmeDocument)),
              diagnosticsCollection :=
                (diagnosticsCollection (queue linterAfterProseScan readmeDocument))
                  (uri readmeDocument \<mapsto> [])\<rparr>)"
    by simp
  have 6: "\<not> noExtensionManifest exampleHost extensionWorkspace
          (getUriFolder exampleHost (uri readmeDocument))"
    by code_simp
  from 1 2 3 a 4 6 5 b show ?thesis by blast
qed

text \<open>
  C8 (the code departs from the claim).  The claim says that a closed document in the
  prose queue is skipped and the remaining documents are scanned.  In \<open>lintReadme\<close>
  the \<open>return\<close> for a closed document leaves the \<open>for ... of\<close> loop: after README and
  CHANGELOG are opened and README is closed, the timeout scans nothing, leaves the
  open CHANGELOG in the queue without published issues, and no timeout is pending.
\<close>

theorem closed_document_ends_prose_drain:
  "isClosed (proseWorkspace [readmeDocument]) readmeDocument
   \<and> \<not> isClosed (proseWorkspace [readmeDocument]) changelogDocument
   \<and> readmeQ (clear (queue (queue (ExtensionLinter_new emptyWorkspace) readmeDocument)
                 changelogDocument) readmeDocument)
      = [readmeDocument, changelogDocument]
   \<and> readmeQ (timerFires exampleHost (proseWorkspace [readmeDocument])
        (clear (queue (queue (ExtensionLinter_new emptyWorkspace) readmeDocument)
                  changelogDocument) readmeDocument))
      = [changelogDocument]
   \<and> diagnosticsCollection (timerFires exampleHost (proseWorkspace [readmeDocument])
        (clear (queue (queue (ExtensionLinter_new emptyWorkspace) readmeDocument)
                  changelogDocument) readmeDocument)) (uri changelogDocument)
      = None
   \<and> \<not> timer (timerFires exampleHost (proseWorkspace [readmeDocument])
        (clear (queue (queue (ExtensionLinter_new emptyWorkspace) readmeDocument)
                  changelogDocument) readmeDocument))"
  by code_simp

text \<open>
  C9 (the code departs from the claim).  The claim says that closing a document
  removes it from both queues.  \<open>clear\<close> deletes it from \<open>packageJsonQ\<close> only: a closed
  README stays in \<open>readmeQ\<close>, while a closed manifest leaves \<open>packageJsonQ\<close>.
\<close>

theorem close_leaves_document_in_readmeQ:
  "readmeQ (queue (ExtensionLinter_new emptyWorkspace) readmeDocument) = [readmeDocument]
   \<and> readmeQ (clear (queue (ExtensionLinter_new emptyWorkspace) readmeDocument) readmeDocument)
      = [readmeDocument]
   \<and> packageJsonQ (queue (ExtensionLinter_new emptyWorkspace) packageJsonDocument)
      = [packageJsonDocument]
   \<and> packageJsonQ (clear (queue (ExtensionLinter_new emptyWorkspace) packageJsonDocument)
        packageJsonDocument)
      = []"
  by code_simp

end
